theory Spec2Isabelle
  imports Complex_Main "HOL-Library.Signed_Division"
begin

section \<open>Memory cells, buffers and undefined behaviour\<close>

text \<open>
  The program \<^verbatim>\<open>pQP.cu\<close> works on heap buffers of \<^verbatim>\<open>double\<close>. A buffer is a list of
  cells. A cell that has never been written since \<^verbatim>\<open>malloc\<close> holds an indeterminate
  value: it is \<open>None\<close>, and so is a cell written with a value copied or computed from an
  indeterminate one; any other written cell is \<open>Some v\<close>. The element type \<open>'a\<close> stands for
  \<^verbatim>\<open>double\<close>/\<^verbatim>\<open>real_t\<close>; arithmetic on it is exact (an ordered field), rounding is not
  modelled.

  Behaviour that C leaves undefined is a value of type \<open>fault\<close>.
\<close>

type_synonym 'a cell = "'a option"

datatype fault = NullPointer | OutOfBounds | IntOverflow | UseAfterFree

definition and_then :: "'e + 's \<Rightarrow> ('s \<Rightarrow> 'e + 't) \<Rightarrow> 'e + 't" where
  "and_then m f = (case m of Inl e \<Rightarrow> Inl e | Inr x \<Rightarrow> f x)"

text \<open>
  \<open>for_loop n body s\<close> is \<^verbatim>\<open>for (i = 0; i < n; i++) body\<close> started in state \<open>s\<close>: it runs
  \<open>body 0\<close>, \<open>body 1\<close>, ... \<open>body (n - 1)\<close> in this order and stops at the first fault.
\<close>

primrec for_loop :: "nat \<Rightarrow> (nat \<Rightarrow> 's \<Rightarrow> 'e + 's) \<Rightarrow> 's \<Rightarrow> 'e + 's" where
  "for_loop 0 body s = Inr s"
| "for_loop (Suc n) body s = and_then (for_loop n body s) (body n)"

text \<open>Indexing \<^verbatim>\<open>a[i]\<close> with an \<^verbatim>\<open>int\<close> or \<^verbatim>\<open>ptrdiff_t\<close> index: reading and writing.\<close>

definition rd :: "'c list \<Rightarrow> int \<Rightarrow> fault + 'c" where
  "rd a i = (if 0 \<le> i \<and> i < int (length a) then Inr (a ! nat i) else Inl OutOfBounds)"

definition wr :: "'c list \<Rightarrow> int \<Rightarrow> 'c \<Rightarrow> fault + 'c list" where
  "wr a i v = (if 0 \<le> i \<and> i < int (length a) then Inr (a[nat i := v]) else Inl OutOfBounds)"

text \<open>Arithmetic in the C type \<^verbatim>\<open>int\<close> (32 bits): a result out of range is undefined.\<close>

definition INT_MAX :: int where
  "INT_MAX = 2147483647"

definition c_int :: "int \<Rightarrow> fault + int" where
  "c_int x = (if - INT_MAX - 1 \<le> x \<and> x \<le> INT_MAX then Inr x else Inl IntOverflow)"

section \<open>The layout adapter: \<^verbatim>\<open>copy_as_transpose\<close>\<close>

text \<open>
  \<^verbatim>\<open>dest[j * n_rows_source + i] = source[i * n_cols_source + j];\<close>
  The two buffers are distinct objects (the caller passes \<^verbatim>\<open>Y\<close> and \<^verbatim>\<open>V\<close>).
\<close>

definition transpose_assign :: "'c list \<Rightarrow> int \<Rightarrow> int \<Rightarrow> nat \<Rightarrow> nat \<Rightarrow> 'c list \<Rightarrow> fault + 'c list" where
  "transpose_assign source n_rows_source n_cols_source i j dest =
     and_then (c_int (int i * n_cols_source)) (\<lambda>a.
     and_then (c_int (a + int j)) (\<lambda>from.
     and_then (rd source from) (\<lambda>v.
     and_then (c_int (int j * n_rows_source)) (\<lambda>b.
     and_then (c_int (b + int i)) (\<lambda>to.
       wr dest to v)))))"

definition copy_as_transpose :: "'c list \<Rightarrow> 'c list \<Rightarrow> int \<Rightarrow> int \<Rightarrow> fault + 'c list" where
  "copy_as_transpose dest source n_rows_source n_cols_source =
     for_loop (nat n_rows_source) (\<lambda>i.
       for_loop (nat n_cols_source) (\<lambda>j.
         transpose_assign source n_rows_source n_cols_source i j)) dest"

section \<open>Pointers, \<^verbatim>\<open>memcpy\<close> and \<^verbatim>\<open>free\<close>\<close>

text \<open>
  Every pointer of the program comes from its own \<^verbatim>\<open>malloc\<close> call, so no two of them
  alias: a pointer is modelled together with the buffer it owns. Sizes count elements,
  not bytes.
\<close>

datatype 'a ptr = NULL | Buf "'a cell list" | Freed

definition deref :: "'a ptr \<Rightarrow> fault + 'a cell list" where
  "deref x = (case x of NULL \<Rightarrow> Inl NullPointer | Buf cs \<Rightarrow> Inr cs | Freed \<Rightarrow> Inl UseAfterFree)"

definition load :: "'a ptr \<Rightarrow> int \<Rightarrow> fault + 'a cell" where
  "load x i = and_then (deref x) (\<lambda>cs. rd cs i)"

definition store :: "'a ptr \<Rightarrow> int \<Rightarrow> 'a cell \<Rightarrow> fault + 'a ptr" where
  "store x i v = and_then (deref x) (\<lambda>cs. and_then (wr cs i v) (\<lambda>cs'. Inr (Buf cs')))"

definition memcpy :: "'a ptr \<Rightarrow> 'a ptr \<Rightarrow> nat \<Rightarrow> fault + 'a ptr" where
  "memcpy dest src n =
     and_then (deref dest) (\<lambda>d.
     and_then (deref src) (\<lambda>s.
       if n \<le> length d \<and> n \<le> length s then Inr (Buf (take n s @ drop n d))
       else Inl OutOfBounds))"

definition free :: "'a ptr \<Rightarrow> fault + 'a ptr" where
  "free x = (case x of NULL \<Rightarrow> Inr NULL | Buf cs \<Rightarrow> Inr Freed | Freed \<Rightarrow> Inl UseAfterFree)"

section \<open>The dense linear algebra library (CBLAS)\<close>

text \<open>
  \<^verbatim>\<open>cblas_dgemv\<close> and \<^verbatim>\<open>cblas_dgemm\<close> are library routines; the repository holds only
  their calls. They are modelled by their interface contract,
  \<open>y := alpha * op(A) * x + beta * y\<close> and \<open>C := alpha * op(A) * op(B) + beta * C\<close>, on
  cells: an operation on an indeterminate cell gives an indeterminate cell. When a
  scaling factor is zero the operand it scales is not read. Strides are positive.
\<close>

datatype CBLAS_ORDER = CblasRowMajor | CblasColMajor

datatype CBLAS_TRANSPOSE = CblasNoTrans | CblasTrans

definition cell_add :: "'a::linordered_field cell \<Rightarrow> 'a cell \<Rightarrow> 'a cell" where
  "cell_add x y = (case x of None \<Rightarrow> None | Some a \<Rightarrow> (case y of None \<Rightarrow> None | Some b \<Rightarrow> Some (a + b)))"

definition cell_mul :: "'a::linordered_field cell \<Rightarrow> 'a cell \<Rightarrow> 'a cell" where
  "cell_mul x y = (case x of None \<Rightarrow> None | Some a \<Rightarrow> (case y of None \<Rightarrow> None | Some b \<Rightarrow> Some (a * b)))"

definition cell_sum :: "'a::linordered_field cell list \<Rightarrow> 'a cell" where
  "cell_sum cs = foldr cell_add cs (Some 0)"

definition scaled :: "'a::linordered_field \<Rightarrow> 'a cell \<Rightarrow> 'a cell" where
  "scaled c x = (if c = 0 then Some 0 else cell_mul (Some c) x)"

text \<open>Where element \<open>(i, j)\<close> of \<open>op(A)\<close> is stored, for leading dimension \<open>lda\<close>.\<close>

definition mat_index :: "CBLAS_ORDER \<Rightarrow> CBLAS_TRANSPOSE \<Rightarrow> nat \<Rightarrow> nat \<Rightarrow> nat \<Rightarrow> nat" where
  "mat_index order transA lda i j =
     (if (order = CblasColMajor) = (transA = CblasNoTrans) then i + j * lda else j + i * lda)"

text \<open>
  \<^verbatim>\<open>cblas_dgemv\<close>: \<open>A\<close> is \<open>m\<close>-by-\<open>n\<close>; \<open>op(A)\<close> has \<open>ly\<close> rows and \<open>lx\<close> columns. An
  operand too short for the sizes given is an out-of-bounds access.
\<close>

definition dgemv_in_bounds ::
  "CBLAS_ORDER \<Rightarrow> CBLAS_TRANSPOSE \<Rightarrow> nat \<Rightarrow> nat \<Rightarrow> 'a cell list \<Rightarrow> nat \<Rightarrow>
   'a cell list \<Rightarrow> nat \<Rightarrow> 'a cell list \<Rightarrow> nat \<Rightarrow> bool" where
  "dgemv_in_bounds order transA ly lx A lda X incX Y incY =
     (list_all (\<lambda>i. list_all (\<lambda>j. mat_index order transA lda i j < length A) [0..<lx]) [0..<ly]
      \<and> list_all (\<lambda>j. j * incX < length X) [0..<lx]
      \<and> list_all (\<lambda>i. i * incY < length Y) [0..<ly])"

definition dgemv_result ::
  "CBLAS_ORDER \<Rightarrow> CBLAS_TRANSPOSE \<Rightarrow> nat \<Rightarrow> nat \<Rightarrow> 'a::linordered_field \<Rightarrow> 'a cell list \<Rightarrow> nat \<Rightarrow>
   'a cell list \<Rightarrow> nat \<Rightarrow> 'a \<Rightarrow> 'a cell list \<Rightarrow> nat \<Rightarrow> 'a cell list" where
  "dgemv_result order transA ly lx alpha A lda X incX beta Y incY =
     fold (\<lambda>i y. y[i * incY :=
             cell_add
               (scaled alpha (cell_sum (map (\<lambda>j. cell_mul (A ! mat_index order transA lda i j) (X ! (j * incX))) [0..<lx])))
               (scaled beta (Y ! (i * incY)))]) [0..<ly] Y"

definition cblas_dgemv ::
  "CBLAS_ORDER \<Rightarrow> CBLAS_TRANSPOSE \<Rightarrow> nat \<Rightarrow> nat \<Rightarrow> 'a::linordered_field \<Rightarrow> 'a cell list \<Rightarrow> nat \<Rightarrow>
   'a cell list \<Rightarrow> nat \<Rightarrow> 'a \<Rightarrow> 'a cell list \<Rightarrow> nat \<Rightarrow> fault + 'a cell list" where
  "cblas_dgemv order transA m n alpha A lda X incX beta Y incY =
     (let ly = (if transA = CblasNoTrans then m else n);
          lx = (if transA = CblasNoTrans then n else m)
      in if dgemv_in_bounds order transA ly lx A lda X incX Y incY
         then Inr (dgemv_result order transA ly lx alpha A lda X incX beta Y incY)
         else Inl OutOfBounds)"

text \<open>\<^verbatim>\<open>cblas_dgemm\<close>: \<open>op(A)\<close> is \<open>m\<close>-by-\<open>k\<close>, \<open>op(B)\<close> is \<open>k\<close>-by-\<open>n\<close>, \<open>C\<close> is \<open>m\<close>-by-\<open>n\<close>.\<close>

definition dgemm_in_bounds ::
  "CBLAS_ORDER \<Rightarrow> CBLAS_TRANSPOSE \<Rightarrow> CBLAS_TRANSPOSE \<Rightarrow> nat \<Rightarrow> nat \<Rightarrow> nat \<Rightarrow>
   'a cell list \<Rightarrow> nat \<Rightarrow> 'a cell list \<Rightarrow> nat \<Rightarrow> 'a cell list \<Rightarrow> nat \<Rightarrow> bool" where
  "dgemm_in_bounds order transA transB m n k A lda B ldb C ldc =
     (list_all (\<lambda>i. list_all (\<lambda>l. mat_index order transA lda i l < length A) [0..<k]) [0..<m]
      \<and> list_all (\<lambda>l. list_all (\<lambda>j. mat_index order transB ldb l j < length B) [0..<n]) [0..<k]
      \<and> list_all (\<lambda>i. list_all (\<lambda>j. mat_index order CblasNoTrans ldc i j < length C) [0..<n]) [0..<m])"

definition dgemm_result ::
  "CBLAS_ORDER \<Rightarrow> CBLAS_TRANSPOSE \<Rightarrow> CBLAS_TRANSPOSE \<Rightarrow> nat \<Rightarrow> nat \<Rightarrow> nat \<Rightarrow> 'a::linordered_field \<Rightarrow>
   'a cell list \<Rightarrow> nat \<Rightarrow> 'a cell list \<Rightarrow> nat \<Rightarrow> 'a \<Rightarrow> 'a cell list \<Rightarrow> nat \<Rightarrow> 'a cell list" where
  "dgemm_result order transA transB m n k alpha A lda B ldb beta C ldc =
     fold (\<lambda>x c. c[mat_index order CblasNoTrans ldc (fst x) (snd x) :=
             cell_add
               (scaled alpha (cell_sum (map (\<lambda>l. cell_mul (A ! mat_index order transA lda (fst x) l)
                                                            (B ! mat_index order transB ldb l (snd x))) [0..<k])))
               (scaled beta (C ! mat_index order CblasNoTrans ldc (fst x) (snd x)))])
          (List.product [0..<m] [0..<n]) C"

definition cblas_dgemm ::
  "CBLAS_ORDER \<Rightarrow> CBLAS_TRANSPOSE \<Rightarrow> CBLAS_TRANSPOSE \<Rightarrow> nat \<Rightarrow> nat \<Rightarrow> nat \<Rightarrow> 'a::linordered_field \<Rightarrow>
   'a cell list \<Rightarrow> nat \<Rightarrow> 'a cell list \<Rightarrow> nat \<Rightarrow> 'a \<Rightarrow> 'a cell list \<Rightarrow> nat \<Rightarrow> fault + 'a cell list" where
  "cblas_dgemm order transA transB m n k alpha A lda B ldb beta C ldc =
     (if dgemm_in_bounds order transA transB m n k A lda B ldb C ldc
      then Inr (dgemm_result order transA transB m n k alpha A lda B ldb beta C ldc)
      else Inl OutOfBounds)"

section \<open>The platform: what the program takes from its environment\<close>

text \<open>
  The header \<^verbatim>\<open>pQP.cuh\<close> (the macro \<^verbatim>\<open>N\<close>, the type \<^verbatim>\<open>real_t\<close>), the C library
  (\<^verbatim>\<open>RAND_MAX\<close>, \<^verbatim>\<open>srand\<close>, \<^verbatim>\<open>rand\<close>, the outcome of each \<^verbatim>\<open>malloc\<close> call), the CUDA
  runtime (the status of each \<^verbatim>\<open>cudaMalloc\<close> call) and LAPACK's linear solver are not
  part of the source file: they are parameters. \<open>malloc_ok k\<close> tells whether the
  \<open>k\<close>-th \<^verbatim>\<open>malloc\<close> call of the run succeeds, \<open>cudaMalloc_status k\<close> is the status the
  \<open>k\<close>-th \<^verbatim>\<open>cudaMalloc\<close> call returns. \<open>dgesv order n nrhs a lda b ldb\<close> is the solver:
  it returns the status, the new contents of \<open>a\<close>, the pivots and the new contents of
  \<open>b\<close>.
\<close>

record ('g, 'a) platform =
  N :: nat
  RAND_MAX :: int
  srand :: "nat \<Rightarrow> 'g"
  rand :: "'g \<Rightarrow> int \<times> 'g"
  malloc_ok :: "nat \<Rightarrow> bool"
  cudaMalloc_status :: "nat \<Rightarrow> int"
  dgesv :: "int \<Rightarrow> nat \<Rightarrow> nat \<Rightarrow> 'a cell list \<Rightarrow> nat \<Rightarrow> 'a cell list \<Rightarrow> nat \<Rightarrow>
            int \<times> 'a cell list \<times> int list \<times> 'a cell list"

section \<open>The state of a run\<close>

text \<open>What the program prints: text, a number, a line break, a solver status line.\<close>

datatype 'a item = Text string | Number "'a cell" | Newline | Status string int string | CudaError int

datatype dev_ptr = DevNull | DevBuf nat

text \<open>
  The state holds the generator behind \<^verbatim>\<open>rand\<close>, the two output streams, the number of
  \<^verbatim>\<open>malloc\<close> and \<^verbatim>\<open>cudaMalloc\<close> calls made so far, and the local variables of \<^verbatim>\<open>main\<close>.
\<close>

record ('g, 'a) state =
  rng :: 'g
  out :: "'a item list"
  err :: "'a item list"
  mallocs :: nat
  cudaMallocs :: nat
  Q :: "'a ptr"
  Q_copy_1 :: "'a ptr"
  h :: "'a ptr"
  V :: "'a ptr"
  W :: "'a ptr"
  Y :: "'a ptr"
  z :: "'a ptr"
  Q_tilde :: "'a ptr"
  h_tilde :: "'a ptr"
  Q_tilde_dev :: dev_ptr
  h_tilde_dev :: dev_ptr
  ipiv :: "int cell list"
  info :: "int cell"

text \<open>A run stops early by \<^verbatim>\<open>exit(code)\<close> or by undefined behaviour.\<close>

datatype ('g, 'a) halt = Exit int "('g, 'a) state" | Undefined fault

definition defined :: "fault + 'x \<Rightarrow> ('g, 'a) halt + 'x" where
  "defined m = (case m of Inl f \<Rightarrow> Inl (Undefined f) | Inr x \<Rightarrow> Inr x)"

definition EXIT_SUCCESS :: int where
  "EXIT_SUCCESS = 0"

definition EXIT_FAILURE :: int where
  "EXIT_FAILURE = 1"

definition cudaSuccess :: int where
  "cudaSuccess = 0"

definition LAPACK_ROW_MAJOR :: int where
  "LAPACK_ROW_MAJOR = 101"

definition LAPACK_COL_MAJOR :: int where
  "LAPACK_COL_MAJOR = 102"

definition malloc :: "('g, 'a) platform \<Rightarrow> nat \<Rightarrow> ('g, 'a) state \<Rightarrow> 'a ptr \<times> ('g, 'a) state" where
  "malloc p n s =
     (if malloc_ok p (mallocs s) then Buf (replicate n None) else NULL,
      s\<lparr>mallocs := Suc (mallocs s)\<rparr>)"

section \<open>The error handlers\<close>

text \<open>
  \<^verbatim>\<open>HandleError\<close> (behind the macro \<^verbatim>\<open>HANDLE_CUDA_ERROR\<close>) prints to the standard output
  and exits with \<^verbatim>\<open>EXIT_FAILURE\<close>; \<^verbatim>\<open>HANDLE_ALLOCATION_ERROR\<close> prints to the standard
  error and exits with 305.
\<close>

definition HandleError :: "int \<Rightarrow> ('g, 'a) state \<Rightarrow> ('g, 'a) halt + ('g, 'a) state" where
  "HandleError e s =
     (if e \<noteq> cudaSuccess then Inl (Exit EXIT_FAILURE (s\<lparr>out := out s @ [CudaError e]\<rparr>))
      else Inr s)"

definition HANDLE_ALLOCATION_ERROR :: "'a ptr \<Rightarrow> string \<Rightarrow> ('g, 'a) state \<Rightarrow> ('g, 'a) halt + ('g, 'a) state" where
  "HANDLE_ALLOCATION_ERROR x error_code s =
     (if x = NULL then Inl (Exit 305 (s\<lparr>err := err s @ [Text (''Allocation error: '' @ error_code)]\<rparr>))
      else Inr s)"

section \<open>The data provider: \<^verbatim>\<open>init_matrices\<close>\<close>

text \<open>
  \<^verbatim>\<open>(real_t) ((2 * rand() - RAND_MAX) % 1000 + 1) / 1000.0\<close>: the integer part is
  computed in \<^verbatim>\<open>int\<close>; an overflow of \<^verbatim>\<open>2 * rand() - RAND_MAX\<close> wraps around (two's
  complement), \<^verbatim>\<open>%\<close> truncates towards zero.
\<close>

definition wrap_int :: "int \<Rightarrow> int" where
  "wrap_int x = (x + 2147483648) mod 4294967296 - 2147483648"

definition random_entry :: "int \<Rightarrow> int \<Rightarrow> 'a::linordered_field" where
  "random_entry rand_max r = of_int (wrap_int (2 * r - rand_max) smod 1000 + 1) / 1000"

text \<open>The body of the first loop: \<^verbatim>\<open>Q_init[i] = ...\<close>, which draws one random number.\<close>

definition init_Q_init ::
  "('g, 'a::linordered_field) platform \<Rightarrow> nat \<Rightarrow> 'a ptr \<times> ('g, 'a) state \<Rightarrow> fault + 'a ptr \<times> ('g, 'a) state" where
  "init_Q_init p i = (\<lambda>(Q_init, s).
     let (r, g) = rand p (rng s) in
     and_then (store Q_init (int i) (Some (random_entry (RAND_MAX p) r))) (\<lambda>Q_init'.
       Inr (Q_init', s\<lparr>rng := g\<rparr>)))"

text \<open>
  The body of the second loop. The four pointer parameters of \<^verbatim>\<open>init_matrices\<close> are the
  fields \<open>Q\<close>, \<open>h\<close>, \<open>V\<close>, \<open>W\<close> of the state: its only call passes these variables.
\<close>

definition init_row ::
  "('g, 'a::linordered_field) platform \<Rightarrow> nat \<Rightarrow> ('g, 'a) state \<Rightarrow> fault + ('g, 'a) state" where
  "init_row p i s =
     and_then (load (Q s) (int i * (int (N p) + 1))) (\<lambda>old.
     and_then (store (Q s) (int i * (int (N p) + 1)) (cell_add old (Some (2 * of_nat (N p))))) (\<lambda>q.
     let (r, g) = rand p (rng s) in
     and_then (store (h s) (int i) (Some (random_entry (RAND_MAX p) r))) (\<lambda>h'.
     and_then (store (V s) (int i * (2 * int (N p) + 1)) (Some 1)) (\<lambda>v1.
     and_then (store v1 (int i * (2 * int (N p) + 1) + int (N p)) (Some (- 1))) (\<lambda>v2.
     and_then (store (W s) (int i) (Some 10)) (\<lambda>w1.
     and_then (store w1 (int i + int (N p)) (Some (- 9))) (\<lambda>w2.
       Inr (s\<lparr>rng := g, Q := q, h := h', V := v2, W := w2\<rparr>))))))))"

text \<open>
  The function returns its status and the new state. The messages go to the standard
  error; their file name is left out.
\<close>

definition init_matrices ::
  "('g, 'a::linordered_field) platform \<Rightarrow> ('g, 'a) state \<Rightarrow> fault + int \<times> ('g, 'a) state" where
  "init_matrices p s =
     (if Q s = NULL then
        Inr (EXIT_FAILURE, s\<lparr>err := err s @ [Text ''Uninitialized matrix (Q) at line 40'']\<rparr>)
      else if h s = NULL then
        Inr (EXIT_FAILURE, s\<lparr>err := err s @ [Text ''Uninitialized matrix (h) at line 45'']\<rparr>)
      else if V s = NULL then
        Inr (EXIT_FAILURE, s\<lparr>err := err s @ [Text ''Uninitialized matrix (V) at line 50'']\<rparr>)
      else if W s = NULL then
        Inr (EXIT_FAILURE, s\<lparr>err := err s @ [Text ''Uninitialized matrix (W) at line 55'']\<rparr>)
      else
        (let (Q_init, s) = malloc p (N p * N p) s;
             s = s\<lparr>rng := srand p 1001\<rparr>
         in and_then (for_loop (N p * N p) (init_Q_init p) (Q_init, s)) (\<lambda>(Q_init, s).
            and_then (deref Q_init) (\<lambda>qi.
            and_then (deref (Q s)) (\<lambda>q.
            and_then (cblas_dgemm CblasColMajor CblasTrans CblasNoTrans (N p) (N p) (N p) 1
                        qi (N p) qi (N p) 0 q (N p)) (\<lambda>q'.
            and_then (for_loop (N p) (init_row p) (s\<lparr>Q := Buf q'\<rparr>)) (\<lambda>s.
            and_then (free Q_init) (\<lambda>freed.
              Inr (EXIT_SUCCESS, s)))))))))"

section \<open>Diagnostic printing: \<^verbatim>\<open>print_matrix\<close>\<close>

definition print_matrix ::
  "string \<Rightarrow> int \<Rightarrow> int \<Rightarrow> nat \<Rightarrow> nat \<Rightarrow> 'a cell list \<Rightarrow> 'a item list \<Rightarrow> fault + 'a item list" where
  "print_matrix desc matrix_order transposed n_rows n_columns a output =
     (let lda = (if LAPACK_COL_MAJOR = matrix_order then n_rows else n_columns) in
      for_loop (if transposed = 0 then n_rows else n_columns) (\<lambda>i output.
        and_then
          (for_loop (if transposed = 0 then n_columns else n_rows) (\<lambda>j output.
             if LAPACK_COL_MAJOR = matrix_order then
               and_then (c_int (if transposed = 0 then int j * int lda else int i * int lda)) (\<lambda>x.
               and_then (c_int (if transposed = 0 then x + int i else x + int j)) (\<lambda>k.
               and_then (rd a k) (\<lambda>v. Inr (output @ [Number v]))))
             else if LAPACK_ROW_MAJOR \<noteq> 0 then
               and_then (c_int (int i * int lda)) (\<lambda>x.
               and_then (c_int (x + int j)) (\<lambda>k.
               and_then (rd a k) (\<lambda>v. Inr (output @ [Number v]))))
             else Inr output) output)
          (\<lambda>output. Inr (output @ [Newline])))
        (output @ [Text desc]))"

section \<open>The call of the linear solver\<close>

text \<open>
  \<^verbatim>\<open>LAPACKE_dgesv\<close> gets pointers to the matrix, the pivots and the right-hand sides and
  writes into these three buffers only; the buffers keep their sizes whatever the
  solver returns.
\<close>

definition overlay :: "'c list \<Rightarrow> 'c list \<Rightarrow> 'c list" where
  "overlay new old = take (length old) new @ drop (length new) old"

definition LAPACKE_dgesv ::
  "('g, 'a) platform \<Rightarrow> int \<Rightarrow> nat \<Rightarrow> nat \<Rightarrow> 'a ptr \<Rightarrow> nat \<Rightarrow> int cell list \<Rightarrow> 'a ptr \<Rightarrow> nat \<Rightarrow>
   fault + int \<times> 'a ptr \<times> int cell list \<times> 'a ptr" where
  "LAPACKE_dgesv p matrix_order n nrhs a lda pivots b ldb =
     and_then (deref a) (\<lambda>a_cells.
     and_then (deref b) (\<lambda>b_cells.
       if lda * n \<le> length a_cells \<and> n \<le> length pivots \<and> ldb * nrhs \<le> length b_cells then
         (let (status, a', pivots', b') = dgesv p matrix_order n nrhs a_cells lda b_cells ldb
          in Inr (status, Buf (overlay a' a_cells), overlay (map Some pivots') pivots,
                  Buf (overlay b' b_cells)))
       else Inl OutOfBounds))"

section \<open>The program: \<^verbatim>\<open>main\<close>\<close>

definition initial :: "('g, 'a) platform \<Rightarrow> 'g \<Rightarrow> ('g, 'a) state" where
  "initial p g =
     \<lparr>rng = g, out = [], err = [], mallocs = 0, cudaMallocs = 0,
      Q = NULL, Q_copy_1 = NULL, h = NULL, V = NULL, W = NULL, Y = NULL, z = NULL,
      Q_tilde = NULL, h_tilde = NULL, Q_tilde_dev = DevNull, h_tilde_dev = DevNull,
      ipiv = replicate (N p) None, info = None\<rparr>"

text \<open>
  Lines 138 to 155: the host allocations, each followed by its check.
  \<open>allocate p n assign error_code\<close> is the pair of statements
  \<^verbatim>\<open>x = (double *) malloc(n * sizeof(*x)); HANDLE_ALLOCATION_ERROR(x, error_code);\<close>
  where \<open>assign\<close> stores the pointer in the variable \<open>x\<close>.
\<close>

definition allocate ::
  "('g, 'a) platform \<Rightarrow> nat \<Rightarrow> ('a ptr \<Rightarrow> ('g, 'a) state \<Rightarrow> ('g, 'a) state) \<Rightarrow> string \<Rightarrow>
   ('g, 'a) state \<Rightarrow> ('g, 'a) halt + ('g, 'a) state" where
  "allocate p n assign error_code s =
     (let (x, s') = malloc p n s in HANDLE_ALLOCATION_ERROR x error_code (assign x s'))"

definition allocations :: "('g, 'a) platform \<Rightarrow> ('g, 'a) state \<Rightarrow> ('g, 'a) halt + ('g, 'a) state" where
  "allocations p s =
     and_then (allocate p (N p * N p) (\<lambda>x s. s\<lparr>Q := x\<rparr>) ''Q'' s) (\<lambda>s.
     and_then (allocate p (N p * N p) (\<lambda>x s. s\<lparr>Q_copy_1 := x\<rparr>) ''Q_copy_1'' s) (\<lambda>s.
     and_then (allocate p (N p) (\<lambda>x s. s\<lparr>h := x\<rparr>) ''h'' s) (\<lambda>s.
     and_then (allocate p (2 * N p * N p) (\<lambda>x s. s\<lparr>V := x\<rparr>) ''V'' s) (\<lambda>s.
     and_then (allocate p (2 * N p) (\<lambda>x s. s\<lparr>W := x\<rparr>) ''W'' s) (\<lambda>s.
     and_then (allocate p (2 * N p * N p) (\<lambda>x s. s\<lparr>Y := x\<rparr>) ''Y'' s) (\<lambda>s.
     and_then (allocate p (N p) (\<lambda>x s. s\<lparr>z := x\<rparr>) ''z'' s) (\<lambda>s.
     and_then (allocate p ((2 * N p) * (2 * N p)) (\<lambda>x s. s\<lparr>Q_tilde := x\<rparr>) ''Q_tilde'' s) (\<lambda>s.
     and_then (allocate p (2 * N p) (\<lambda>x s. s\<lparr>h_tilde := x\<rparr>) ''h_tilde'' s) (\<lambda>s.
       Inr s)))))))))"

text \<open>Line 158: the call of \<^verbatim>\<open>init_matrices\<close>; its return value is discarded.\<close>

definition initialize :: "('g, 'a::linordered_field) platform \<Rightarrow> ('g, 'a) state \<Rightarrow> ('g, 'a) halt + ('g, 'a) state" where
  "initialize p s = and_then (defined (init_matrices p s)) (\<lambda>(status, s). Inr s)"

text \<open>
  Part A, lines 163 to 166: \<open>z \<leftarrow> h\<close>, \<open>Q_copy_1 \<leftarrow> Q\<close>, the solve \<open>z \<leftarrow> Q\<^sup>-\<^sup>1 z\<close> on the
  copy, and the status line.
\<close>

definition part_A_solve :: "('g, 'a) platform \<Rightarrow> ('g, 'a) state \<Rightarrow> ('g, 'a) halt + ('g, 'a) state" where
  "part_A_solve p s =
     and_then (defined (memcpy (z s) (h s) (N p))) (\<lambda>x. let s = s\<lparr>z := x\<rparr> in
     and_then (defined (memcpy (Q_copy_1 s) (Q s) (N p * N p))) (\<lambda>x. let s = s\<lparr>Q_copy_1 := x\<rparr> in
     and_then (defined (LAPACKE_dgesv p LAPACK_COL_MAJOR (N p) 1 (Q_copy_1 s) (N p) (ipiv s) (z s) (N p)))
       (\<lambda>(status, a, pivots, b).
     let s = s\<lparr>info := Some status, Q_copy_1 := a, ipiv := pivots, z := b\<rparr> in
       Inr (s\<lparr>out := out s @ [Status ''info2'' status (if status = 0 then ''success!'' else ''failure'')]\<rparr>))))"

text \<open>
  Part A, lines 167 to 170: \<open>h_tilde \<leftarrow> W\<close>, \<open>h_tilde \<leftarrow> h_tilde + V z\<close>, and the release
  of the copy of \<open>Q\<close>.
\<close>

definition part_A_assemble :: "('g, 'a::linordered_field) platform \<Rightarrow> ('g, 'a) state \<Rightarrow> ('g, 'a) halt + ('g, 'a) state" where
  "part_A_assemble p s =
     and_then (defined (memcpy (h_tilde s) (W s) (2 * N p))) (\<lambda>x. let s = s\<lparr>h_tilde := x\<rparr> in
     and_then (defined (deref (V s))) (\<lambda>v.
     and_then (defined (deref (z s))) (\<lambda>x.
     and_then (defined (deref (h_tilde s))) (\<lambda>y.
     and_then (defined (cblas_dgemv CblasColMajor CblasNoTrans (2 * N p) (N p) 1 v (2 * N p) x 1 1 y 1)) (\<lambda>y'.
     let s = s\<lparr>h_tilde := Buf y'\<rparr> in
     and_then (defined (free (Q_copy_1 s))) (\<lambda>x.
       Inr (s\<lparr>Q_copy_1 := x\<rparr>)))))))"

text \<open>
  Part B, lines 175 to 185: \<open>Y \<leftarrow> V'\<close>, the solve \<open>Y \<leftarrow> Q\<^sup>-\<^sup>1 Y\<close> on \<open>Q\<close> itself, and the
  status line.
\<close>

definition part_B_solve :: "('g, 'a) platform \<Rightarrow> ('g, 'a) state \<Rightarrow> ('g, 'a) halt + ('g, 'a) state" where
  "part_B_solve p s =
     and_then (defined (deref (Y s))) (\<lambda>y.
     and_then (defined (deref (V s))) (\<lambda>v.
     and_then (defined (copy_as_transpose y v (int (N p)) (2 * int (N p)))) (\<lambda>y'.
     let s = s\<lparr>Y := Buf y'\<rparr> in
     and_then (defined (LAPACKE_dgesv p LAPACK_COL_MAJOR (N p) (2 * N p) (Q s) (N p) (ipiv s) (Y s) (N p)))
       (\<lambda>(status, a, pivots, b).
     let s = s\<lparr>info := Some status, Q := a, ipiv := pivots, Y := b\<rparr> in
       Inr (s\<lparr>out := out s @ [Status ''info'' status (if status = 0 then ''success!'' else ''failure'')]\<rparr>)))))"

text \<open>Part B, lines 191 to 194: \<open>Q_tilde \<leftarrow> V Y\<close> and its print-out.\<close>

definition part_B_assemble :: "('g, 'a::linordered_field) platform \<Rightarrow> ('g, 'a) state \<Rightarrow> ('g, 'a) halt + ('g, 'a) state" where
  "part_B_assemble p s =
     and_then (defined (deref (V s))) (\<lambda>v.
     and_then (defined (deref (Y s))) (\<lambda>y.
     and_then (defined (deref (Q_tilde s))) (\<lambda>c.
     and_then (defined (cblas_dgemm CblasColMajor CblasNoTrans CblasNoTrans (2 * N p) (2 * N p) (N p) 1
                          v (2 * N p) y (N p) 0 c (2 * N p))) (\<lambda>c'.
     let s = s\<lparr>Q_tilde := Buf c'\<rparr> in
     and_then (defined (print_matrix ''Qtilde'' LAPACK_COL_MAJOR 0 (2 * N p) (2 * N p) c' (out s))) (\<lambda>output.
       Inr (s\<lparr>out := output\<rparr>))))))"

text \<open>Part C, lines 202 to 206: the two device allocations, each checked.\<close>

definition cudaMalloc :: "('g, 'a) platform \<Rightarrow> dev_ptr \<Rightarrow> nat \<Rightarrow> ('g, 'a) state \<Rightarrow> int \<times> dev_ptr \<times> ('g, 'a) state" where
  "cudaMalloc p x n s =
     (let e = cudaMalloc_status p (cudaMallocs s)
      in (e, if e = cudaSuccess then DevBuf n else x, s\<lparr>cudaMallocs := Suc (cudaMallocs s)\<rparr>))"

definition part_C :: "('g, 'a) platform \<Rightarrow> ('g, 'a) state \<Rightarrow> ('g, 'a) halt + ('g, 'a) state" where
  "part_C p s =
     (let (e, x, s) = cudaMalloc p (Q_tilde_dev s) ((2 * N p) * (2 * N p)) s; s = s\<lparr>Q_tilde_dev := x\<rparr> in
      and_then (HandleError e s) (\<lambda>s.
      let (e, x, s) = cudaMalloc p (h_tilde_dev s) (2 * N p) s; s = s\<lparr>h_tilde_dev := x\<rparr> in
      and_then (HandleError e s) (\<lambda>s.
        Inr s)))"

text \<open>The three parts of \<^verbatim>\<open>main\<close>, as its comments name them, and \<^verbatim>\<open>main\<close> itself.\<close>

definition part_A :: "('g, 'a::linordered_field) platform \<Rightarrow> ('g, 'a) state \<Rightarrow> ('g, 'a) halt + ('g, 'a) state" where
  "part_A p s = and_then (part_A_solve p s) (part_A_assemble p)"

definition part_B :: "('g, 'a::linordered_field) platform \<Rightarrow> ('g, 'a) state \<Rightarrow> ('g, 'a) halt + ('g, 'a) state" where
  "part_B p s = and_then (part_B_solve p s) (part_B_assemble p)"

definition main :: "('g, 'a::linordered_field) platform \<Rightarrow> 'g \<Rightarrow> ('g, 'a) halt + int \<times> ('g, 'a) state" where
  "main p g =
     and_then (allocations p (initial p g)) (\<lambda>s.
     and_then (initialize p s) (\<lambda>s.
     and_then (part_A p s) (\<lambda>s.
     and_then (part_B p s) (\<lambda>s.
     and_then (part_C p s) (\<lambda>s.
       Inr (0, s))))))"

section \<open>An instance of the platform\<close>

text \<open>
  The theorems below hold for every platform. To run the model on concrete inputs, this
  section gives one platform: the solver is Gaussian elimination with partial pivoting
  in exact arithmetic (what LAPACK's \<^verbatim>\<open>dgesv\<close> computes, without rounding), the
  generator is the sample generator of the C standard.
\<close>

text \<open>
  The factorization with row pivoting, on the rows of the matrix: at step \<open>k\<close> the
  pivot is the first entry of largest magnitude in column \<open>k\<close> at or below the
  diagonal; a zero pivot is recorded in the status (the first one, counted from 1) and
  the step is skipped. The result holds the multipliers below the diagonal and the upper
  factor on and above it.
\<close>

definition pivot_row :: "nat \<Rightarrow> nat \<Rightarrow> 'a::linordered_field list list \<Rightarrow> nat" where
  "pivot_row n k rows = fold (\<lambda>i best. if \<bar>rows ! best ! k\<bar> < \<bar>rows ! i ! k\<bar> then i else best) [Suc k..<n] k"

definition swap_rows :: "nat \<Rightarrow> nat \<Rightarrow> 'c list \<Rightarrow> 'c list" where
  "swap_rows i j rows = rows[i := rows ! j, j := rows ! i]"

definition lu_step :: "nat \<Rightarrow> nat \<Rightarrow> 'a::linordered_field list list \<times> int list \<times> int \<Rightarrow> 'a list list \<times> int list \<times> int" where
  "lu_step n k = (\<lambda>(rows, pivots, status).
     let r = pivot_row n k rows in
     if rows ! r ! k = 0 then (rows, pivots @ [int r + 1], if status = 0 then int k + 1 else status)
     else (let rows = swap_rows k r rows; d = rows ! k ! k
           in (map (\<lambda>i. if i \<le> k then rows ! i
                          else (let m = rows ! i ! k / d
                                in map (\<lambda>j. if j < k then rows ! i ! j else if j = k then m
                                            else rows ! i ! j - m * rows ! k ! j) [0..<n])) [0..<n],
               pivots @ [int r + 1], status)))"

definition lu_factor :: "nat \<Rightarrow> 'a::linordered_field list list \<Rightarrow> 'a list list \<times> int list \<times> int" where
  "lu_factor n rows = fold (lu_step n) [0..<n] (rows, [], 0)"

text \<open>
  Solving with the factors: the row exchanges, the forward substitution with the unit
  lower factor, the backward substitution with the upper factor. The right-hand sides
  are cells: an indeterminate entry makes the entries computed from it indeterminate.
\<close>

definition lu_apply :: "nat \<Rightarrow> 'a::linordered_field list list \<Rightarrow> int list \<Rightarrow> 'a cell list list \<Rightarrow> 'a cell list list" where
  "lu_apply n lu pivots b =
     (let b1 = fold (\<lambda>k b. swap_rows k (nat (pivots ! k - 1)) b) [0..<n] b;
          b2 = fold (\<lambda>k b. map (\<lambda>i. if i \<le> k then b ! i
                                      else map2 (\<lambda>x y. cell_add x (cell_mul (Some (- (lu ! i ! k))) y)) (b ! i) (b ! k)) [0..<n])
                    [0..<n] b1
      in fold (\<lambda>k b. let bk = map (\<lambda>x. cell_mul x (Some (1 / lu ! k ! k))) (b ! k)
                      in map (\<lambda>i. if i < k then map2 (\<lambda>x y. cell_add x (cell_mul (Some (- (lu ! i ! k))) y)) (b ! i) bk
                                    else if i = k then bk else b ! i) [0..<n])
              (rev [0..<n]) b2)"

text \<open>
  The solver on buffers. The right-hand sides are solved only when the status is zero.
  When the matrix has an indeterminate cell nothing is known about the outcome: the
  instance then returns status 0 and indeterminate buffers.
\<close>

definition exact_dgesv ::
  "int \<Rightarrow> nat \<Rightarrow> nat \<Rightarrow> 'a::linordered_field cell list \<Rightarrow> nat \<Rightarrow> 'a cell list \<Rightarrow> nat \<Rightarrow>
   int \<times> 'a cell list \<times> int list \<times> 'a cell list" where
  "exact_dgesv matrix_order n nrhs a lda b ldb =
     (let pos = (\<lambda>ld i j. if matrix_order = LAPACK_COL_MAJOR then i + j * ld else i * ld + j);
          a_rows = map (\<lambda>i. map (\<lambda>j. a ! pos lda i j) [0..<n]) [0..<n];
          b_rows = map (\<lambda>i. map (\<lambda>j. b ! pos ldb i j) [0..<nrhs]) [0..<n]
      in if list_all (list_all (\<lambda>c. c \<noteq> None)) a_rows then
           (let (lu, pivots, status) = lu_factor n (map (map the) a_rows);
                x_rows = (if status = 0 then lu_apply n lu pivots b_rows else b_rows)
            in (status,
                fold (\<lambda>(i, j) a. a[pos lda i j := Some (lu ! i ! j)]) (List.product [0..<n] [0..<n]) a,
                pivots,
                fold (\<lambda>(i, j) b. b[pos ldb i j := x_rows ! i ! j]) (List.product [0..<n] [0..<nrhs]) b))
         else (0, map (\<lambda>c. None) a, [], map (\<lambda>c. None) b))"

text \<open>
  The generator that the C standard gives as an example of \<^verbatim>\<open>rand\<close> and \<^verbatim>\<open>srand\<close>, with
  \<^verbatim>\<open>RAND_MAX\<close> 32767, and a platform where every allocation succeeds.
\<close>

definition iso_rand :: "int \<Rightarrow> int \<times> int" where
  "iso_rand next = (let n = (next * 1103515245 + 12345) mod 4294967296 in ((n div 65536) mod 32768, n))"

definition example_platform :: "nat \<Rightarrow> (int, rat) platform" where
  "example_platform n =
     \<lparr>N = n, RAND_MAX = 32767, srand = (\<lambda>seed. int seed), rand = iso_rand,
      malloc_ok = (\<lambda>k. True), cudaMalloc_status = (\<lambda>k. 0), dgesv = exact_dgesv\<rparr>"

text \<open>
  The end-to-end scenario of the specification (\<open>N = 2\<close>), as a well sized state:
  \<open>Q = diag(3, 3)\<close>, \<open>h = (1, 1)\<close>, \<open>V\<close> with rows \<open>(1, 0)\<close>, \<open>(0, 1)\<close>, \<open>(-1, 0)\<close>,
  \<open>(0, -1)\<close>, stored column by column, and \<open>W = (10, 10, -9, -9)\<close>.
\<close>

definition scenario :: "(int, rat) state" where
  "scenario = (initial (example_platform 2) 0)
     \<lparr>Q := Buf [Some 3, Some 0, Some 0, Some 3], Q_copy_1 := Buf (replicate 4 None),
      h := Buf [Some 1, Some 1],
      V := Buf [Some 1, Some 0, Some (- 1), Some 0, Some 0, Some 1, Some 0, Some (- 1)],
      W := Buf [Some 10, Some 10, Some (- 9), Some (- 9)],
      Y := Buf (replicate 8 None), z := Buf (replicate 2 None),
      Q_tilde := Buf (replicate 16 None), h_tilde := Buf (replicate 4 None)\<rparr>"

section \<open>Auxiliary definitions for the proofs\<close>

text \<open>
  The contents of the destination while \<open>copy_as_transpose\<close> runs: rows \<open>0 .. m - 1\<close> of
  the source have been copied, and the first \<open>n\<close> elements of row \<open>m\<close>.
\<close>

definition transposed_upto :: "'c list \<Rightarrow> nat \<Rightarrow> nat \<Rightarrow> nat \<Rightarrow> nat \<Rightarrow> 'c list \<Rightarrow> 'c list" where
  "transposed_upto source R C m n dest =
     map (\<lambda>k. if k mod R < m \<and> k div R < C \<or> k mod R = m \<and> k div R < n
               then source ! ((k mod R) * C + k div R) else dest ! k) [0..<length dest]"

text \<open>The names given to the allocation handler, in the order of the allocations.\<close>

definition buffer_names :: "string list" where
  "buffer_names = [''Q'', ''Q_copy_1'', ''h'', ''V'', ''W'', ''Y'', ''z'', ''Q_tilde'', ''h_tilde'']"

text \<open>
  A state is well sized when every buffer is allocated with the size \<^verbatim>\<open>main\<close> gives it;
  the contents are arbitrary.
\<close>

definition has_size :: "'a ptr \<Rightarrow> nat \<Rightarrow> bool" where
  "has_size x n = (case x of NULL \<Rightarrow> False | Buf cs \<Rightarrow> length cs = n | Freed \<Rightarrow> False)"

definition cells :: "'a ptr \<Rightarrow> 'a cell list" where
  "cells x = (case x of NULL \<Rightarrow> [] | Buf cs \<Rightarrow> cs | Freed \<Rightarrow> [])"

definition sized :: "('g, 'a) platform \<Rightarrow> ('g, 'a) state \<Rightarrow> bool" where
  "sized p s \<longleftrightarrow>
     has_size (Q s) (N p * N p) \<and> has_size (Q_copy_1 s) (N p * N p) \<and> has_size (h s) (N p)
     \<and> has_size (V s) (2 * N p * N p) \<and> has_size (W s) (2 * N p) \<and> has_size (Y s) (2 * N p * N p)
     \<and> has_size (z s) (N p) \<and> has_size (Q_tilde s) ((2 * N p) * (2 * N p))
     \<and> has_size (h_tilde s) (2 * N p) \<and> length (ipiv s) = N p"

text \<open>The state after the nine host allocations, when all succeed.\<close>

definition allocated :: "('g, 'a) platform \<Rightarrow> ('g, 'a) state \<Rightarrow> ('g, 'a) state" where
  "allocated p s =
     s\<lparr>mallocs := mallocs s + 9,
       Q := Buf (replicate (N p * N p) None), Q_copy_1 := Buf (replicate (N p * N p) None),
       h := Buf (replicate (N p) None), V := Buf (replicate (2 * N p * N p) None),
       W := Buf (replicate (2 * N p) None), Y := Buf (replicate (2 * N p * N p) None),
       z := Buf (replicate (N p) None), Q_tilde := Buf (replicate ((2 * N p) * (2 * N p)) None),
       h_tilde := Buf (replicate (2 * N p) None)\<rparr>"

text \<open>
  The generator after \<open>n\<close> calls of \<^verbatim>\<open>rand\<close>, the matrix entry made from the \<open>k\<close>-th call,
  and the state that \<^verbatim>\<open>init_matrices\<close> returns on a well sized state.
\<close>

definition generator_after :: "('g, 'a) platform \<Rightarrow> 'g \<Rightarrow> nat \<Rightarrow> 'g" where
  "generator_after p g n = ((\<lambda>x. snd (rand p x)) ^^ n) g"

definition draw :: "('g, 'a::linordered_field) platform \<Rightarrow> 'g \<Rightarrow> nat \<Rightarrow> 'a" where
  "draw p g k = random_entry (RAND_MAX p) (fst (rand p (generator_after p g k)))"

definition Q_init_data :: "('g, 'a::linordered_field) platform \<Rightarrow> nat \<Rightarrow> 'a cell list" where
  "Q_init_data p n = map (\<lambda>k. Some (draw p (srand p 1001) k)) [0..<n] @ replicate (N p * N p - n) None"

definition initialized_upto :: "('g, 'a::linordered_field) platform \<Rightarrow> 'a cell list \<Rightarrow> nat \<Rightarrow> ('g, 'a) state \<Rightarrow> ('g, 'a) state" where
  "initialized_upto p q n s =
     s\<lparr>rng := generator_after p (srand p 1001) (N p * N p + n),
       Q := Buf (fold (\<lambda>i c. c[i * (N p + 1) := cell_add (c ! (i * (N p + 1))) (Some (2 * of_nat (N p)))]) [0..<n] q),
       h := Buf (fold (\<lambda>i c. c[i := Some (draw p (srand p 1001) (N p * N p + i))]) [0..<n] (cells (h s))),
       V := Buf (fold (\<lambda>i c. c[i * (2 * N p + 1) := Some 1, i * (2 * N p + 1) + N p := Some (- 1)]) [0..<n] (cells (V s))),
       W := Buf (fold (\<lambda>i c. c[i := Some 10, i + N p := Some (- 9)]) [0..<n] (cells (W s)))\<rparr>"

definition initialized :: "('g, 'a::linordered_field) platform \<Rightarrow> ('g, 'a) state \<Rightarrow> ('g, 'a) state" where
  "initialized p s =
     initialized_upto p
       (dgemm_result CblasColMajor CblasTrans CblasNoTrans (N p) (N p) (N p) 1
          (Q_init_data p (N p * N p)) (N p) (Q_init_data p (N p * N p)) (N p) 0 (cells (Q s)) (N p))
       (N p) (s\<lparr>mallocs := Suc (mallocs s)\<rparr>)"

text \<open>
  The reduced linear term \<open>W + V z\<close> and the reduced Hessian \<open>V Y\<close> as the specification
  states them, for \<open>V\<close> with \<open>2n\<close> rows and \<open>n\<close> columns and \<open>Y\<close> with \<open>n\<close> rows and \<open>2n\<close>
  columns, both stored column by column.
\<close>

definition h_tilde_spec :: "nat \<Rightarrow> 'a::linordered_field cell list \<Rightarrow> 'a cell list \<Rightarrow> 'a cell list \<Rightarrow> 'a cell list" where
  "h_tilde_spec n w v x =
     map (\<lambda>i. cell_add (w ! i) (cell_sum (map (\<lambda>j. cell_mul (v ! (i + j * (2 * n))) (x ! j)) [0..<n])))
       [0..<2 * n]"

definition Q_tilde_spec :: "nat \<Rightarrow> 'a::linordered_field cell list \<Rightarrow> 'a cell list \<Rightarrow> 'a cell list" where
  "Q_tilde_spec n v y =
     map (\<lambda>k. cell_sum (map (\<lambda>l. cell_mul (v ! (k mod (2 * n) + l * (2 * n))) (y ! (l + (k div (2 * n)) * n))) [0..<n]))
       [0..<(2 * n) * (2 * n)]"

text \<open>What each stage of the pipeline leaves, on a well sized state.\<close>

definition status_line :: "string \<Rightarrow> int \<Rightarrow> 'a item" where
  "status_line name status = Status name status (if status = 0 then ''success!'' else ''failure'')"

definition solved_z :: "('g, 'a) platform \<Rightarrow> ('g, 'a) state \<Rightarrow> ('g, 'a) state" where
  "solved_z p s =
     (case dgesv p LAPACK_COL_MAJOR (N p) 1 (cells (Q s)) (N p) (cells (h s)) (N p) of
        (status, a', pivots', b') \<Rightarrow>
          s\<lparr>z := Buf (overlay b' (cells (h s))), Q_copy_1 := Buf (overlay a' (cells (Q s))),
            ipiv := overlay (map Some pivots') (ipiv s), info := Some status,
            out := out s @ [status_line ''info2'' status]\<rparr>)"

definition assembled_h :: "('g, 'a::linordered_field) platform \<Rightarrow> ('g, 'a) state \<Rightarrow> ('g, 'a) state" where
  "assembled_h p s =
     s\<lparr>h_tilde := Buf (h_tilde_spec (N p) (cells (W s)) (cells (V s)) (cells (z s))), Q_copy_1 := Freed\<rparr>"

definition transposed_V :: "('g, 'a) platform \<Rightarrow> ('g, 'a) state \<Rightarrow> 'a cell list" where
  "transposed_V p s = transposed_upto (cells (V s)) (N p) (2 * N p) (N p) 0 (cells (Y s))"

definition solved_Y :: "('g, 'a) platform \<Rightarrow> ('g, 'a) state \<Rightarrow> ('g, 'a) state" where
  "solved_Y p s =
     (case dgesv p LAPACK_COL_MAJOR (N p) (2 * N p) (cells (Q s)) (N p) (transposed_V p s) (N p) of
        (status, a', pivots', b') \<Rightarrow>
          s\<lparr>Y := Buf (overlay b' (transposed_V p s)), Q := Buf (overlay a' (cells (Q s))),
            ipiv := overlay (map Some pivots') (ipiv s), info := Some status,
            out := out s @ [status_line ''info'' status]\<rparr>)"

definition printed_matrix :: "string \<Rightarrow> nat \<Rightarrow> nat \<Rightarrow> nat \<Rightarrow> 'a cell list \<Rightarrow> 'a item list" where
  "printed_matrix desc m rows columns a =
     Text desc # concat (map (\<lambda>i. map (\<lambda>j. Number (a ! (j * m + i))) [0..<columns] @ [Newline]) [0..<rows])"

definition assembled_Q :: "('g, 'a::linordered_field) platform \<Rightarrow> ('g, 'a) state \<Rightarrow> ('g, 'a) state" where
  "assembled_Q p s =
     s\<lparr>Q_tilde := Buf (Q_tilde_spec (N p) (cells (V s)) (cells (Y s))),
       out := out s @ printed_matrix ''Qtilde'' (2 * N p) (2 * N p) (2 * N p)
                        (Q_tilde_spec (N p) (cells (V s)) (cells (Y s)))\<rparr>"

text \<open>
  The state in which \<^verbatim>\<open>main\<close> enters Part A when the host allocations succeed, and the
  state in which a well sized state leaves Part B.
\<close>

definition prepared :: "('g, 'a::linordered_field) platform \<Rightarrow> 'g \<Rightarrow> ('g, 'a) state" where
  "prepared p g = initialized p (allocated p (initial p g))"

definition reduced :: "('g, 'a::linordered_field) platform \<Rightarrow> ('g, 'a) state \<Rightarrow> ('g, 'a) state" where
  "reduced p s = assembled_Q p (solved_Y p (assembled_h p (solved_z p s)))"

section \<open>Basic facts\<close>

lemma and_then_Inr [simp]: "and_then (Inr x) f = f x"
  by (simp add: and_then_def)

lemma and_then_Inl [simp]: "and_then (Inl e) f = Inl e"
  by (simp add: and_then_def)

lemma c_int_nat:
  assumes "n < m" "int m \<le> INT_MAX"
  shows "c_int (int n) = Inr (int n)"
proof -
  have "int n < int m" using assms(1) by simp
  then show ?thesis using assms(2) by (simp add: c_int_def INT_MAX_def)
qed

lemma rd_nat: "n < length a \<Longrightarrow> rd a (int n) = Inr (a ! n)"
  by (simp add: rd_def)

lemma wr_nat: "n < length a \<Longrightarrow> wr a (int n) v = Inr (a[n := v])"
  by (simp add: wr_def)

lemma cell_index_less:
  fixes i j R C :: nat
  assumes "i < R" "j < C"
  shows "i * C + j < R * C"
proof -
  have "i * C + j < i * C + C" using assms by simp
  also have "\<dots> = (Suc i) * C" by simp
  also have "\<dots> \<le> R * C" using assms by (intro mult_le_mono1) simp
  finally show ?thesis .
qed

lemma transpose_assign_ok:
  assumes "i < R" "j < C" "R * C \<le> length source" "R * C \<le> length dest" "int (R * C) \<le> INT_MAX"
  shows "transpose_assign source (int R) (int C) i j dest = Inr (dest[j * R + i := source ! (i * C + j)])"
proof -
  have a: "i * C + j < R * C" using assms by (simp add: cell_index_less)
  have b: "j * R + i < R * C" using cell_index_less[of j C i R] assms by (simp add: mult.commute)
  have a': "i * C < R * C" and b': "j * R < R * C" using a b by linarith+
  have 1: "c_int (int i * int C) = Inr (int (i * C))"
    using c_int_nat[OF a' assms(5)] by simp
  have 2: "c_int (int (i * C) + int j) = Inr (int (i * C + j))"
    using c_int_nat[OF a assms(5)] by simp
  have 3: "c_int (int j * int R) = Inr (int (j * R))"
    using c_int_nat[OF b' assms(5)] by simp
  have 4: "c_int (int (j * R) + int i) = Inr (int (j * R + i))"
    using c_int_nat[OF b assms(5)] by simp
  have 5: "rd source (int (i * C + j)) = Inr (source ! (i * C + j))"
    using a assms(3) by (intro rd_nat) simp
  have 6: "wr dest (int (j * R + i)) v = Inr (dest[j * R + i := v])" for v
    using b assms(4) by (intro wr_nat) simp
  show ?thesis
    unfolding transpose_assign_def 1 and_then_Inr 2 3 4 5 6 ..
qed

lemma length_transposed_upto [simp]: "length (transposed_upto source R C m n dest) = length dest"
  by (simp add: transposed_upto_def)

lemma inner_loop:
  assumes "i < R" "n \<le> C" "R * C \<le> length source" "R * C \<le> length dest" "int (R * C) \<le> INT_MAX"
  shows "for_loop n (\<lambda>j. transpose_assign source (int R) (int C) i j) (transposed_upto source R C i 0 dest)
         = Inr (transposed_upto source R C i n dest)"
  using assms(2)
proof (induction n)
  case 0
  show ?case by simp
next
  case (Suc n)
  have n: "n < C" using Suc.prems by simp
  have "for_loop (Suc n) (\<lambda>j. transpose_assign source (int R) (int C) i j) (transposed_upto source R C i 0 dest)
        = transpose_assign source (int R) (int C) i n (transposed_upto source R C i n dest)"
    using Suc by simp
  also have "\<dots> = Inr ((transposed_upto source R C i n dest)[n * R + i := source ! (i * C + n)])"
    using assms n by (intro transpose_assign_ok) simp_all
  also have "(transposed_upto source R C i n dest)[n * R + i := source ! (i * C + n)]
             = transposed_upto source R C i (Suc n) dest"
  proof (rule nth_equalityI)
    show "length ((transposed_upto source R C i n dest)[n * R + i := source ! (i * C + n)]) =
          length (transposed_upto source R C i (Suc n) dest)" by simp
  next
    fix k assume "k < length ((transposed_upto source R C i n dest)[n * R + i := source ! (i * C + n)])"
    then have k: "k < length dest" by simp
    have eq: "k = n * R + i \<longleftrightarrow> k mod R = i \<and> k div R = n"
      using assms(1) by (auto simp: mult.commute)
    show "(transposed_upto source R C i n dest)[n * R + i := source ! (i * C + n)] ! k =
          transposed_upto source R C i (Suc n) dest ! k"
    proof (cases "k = n * R + i")
      case True
      then show ?thesis using k eq by (simp add: transposed_upto_def)
    next
      case False
      then show ?thesis using k eq by (auto simp: transposed_upto_def nth_list_update less_Suc_eq)
    qed
  qed
  finally show ?case .
qed

lemma transposed_upto_next: "transposed_upto source R C i C dest = transposed_upto source R C (Suc i) 0 dest"
  by (auto simp: transposed_upto_def less_Suc_eq)

lemma transposed_upto_start: "transposed_upto source R C 0 0 dest = dest"
  by (simp add: transposed_upto_def map_nth)

lemma outer_loop:
  assumes "m \<le> R" "R * C \<le> length source" "R * C \<le> length dest" "int (R * C) \<le> INT_MAX"
  shows "for_loop m (\<lambda>i. for_loop C (\<lambda>j. transpose_assign source (int R) (int C) i j)) dest
         = Inr (transposed_upto source R C m 0 dest)"
  using assms(1)
proof (induction m)
  case 0
  show ?case by (simp add: transposed_upto_start)
next
  case (Suc m)
  then show ?case using assms(2-) inner_loop[of m R C C source dest]
    by (simp add: transposed_upto_next)
qed


lemma copy_as_transpose_result:
  assumes "R * C \<le> length source" "R * C \<le> length dest" "int (R * C) \<le> INT_MAX"
  shows "copy_as_transpose dest source (int R) (int C) = Inr (transposed_upto source R C R 0 dest)"
  unfolding copy_as_transpose_def using outer_loop[OF le_refl assms] by simp

lemma transposed_upto_nth:
  assumes "i < R" "j < C" "R * C \<le> length dest"
  shows "transposed_upto source R C R 0 dest ! (j * R + i) = source ! (i * C + j)"
proof -
  have "j * R + i < R * C" using cell_index_less[of j C i R] assms by (simp add: mult.commute)
  then have "j * R + i < length dest" using assms(3) by simp
  then show ?thesis using assms(1,2) by (simp add: transposed_upto_def)
qed

lemma transposed_upto_rest:
  assumes "R * C \<le> k" "k < length dest"
  shows "transposed_upto source R C R 0 dest ! k = dest ! k"
proof -
  have "\<not> (k mod R < R \<and> k div R < C)"
  proof (cases "R = 0")
    case True
    then show ?thesis by simp
  next
    case False
    then have "k div R < C \<longleftrightarrow> k < C * R" by (intro div_less_iff_less_mult) simp
    then show ?thesis using assms(1) by (simp add: mult.commute)
  qed
  then show ?thesis using assms(2) by (auto simp: transposed_upto_def)
qed

section \<open>Loops and buffer updates\<close>

lemma for_loop_trajectory:
  assumes "\<And>i. i < n \<Longrightarrow> body i (f i) = Inr (f (Suc i))"
  shows "for_loop n body (f 0) = Inr (f n)"
  using assms by (induction n) simp_all

lemma for_loop_fault:
  assumes "body 0 s = Inl e" "0 < n"
  shows "for_loop n body s = Inl e"
  using assms(2)
proof (induction n)
  case 0
  then show ?case by simp
next
  case (Suc n)
  then show ?case using assms(1) by (cases n) simp_all
qed

lemma fold_update_length [simp]:
  "length (fold (\<lambda>x c. c[pos x := val x c]) xs cs) = length cs"
  by (induction xs arbitrary: cs) simp_all

lemma fold_update_other:
  "k \<notin> pos ` set xs \<Longrightarrow> fold (\<lambda>x c. c[pos x := val x c]) xs cs ! k = cs ! k"
  by (induction xs arbitrary: cs) auto

lemma fold_update_hit:
  assumes "distinct (map pos xs)" "x \<in> set xs" "pos x < length cs"
  shows "fold (\<lambda>x c. c[pos x := val x]) xs cs ! pos x = val x"
  using assms
proof (induction xs arbitrary: cs)
  case Nil
  then show ?case by simp
next
  case (Cons a xs)
  show ?case
  proof (cases "x \<in> set xs")
    case True
    then show ?thesis using Cons by simp
  next
    case False
    then have xa: "x = a" using Cons.prems(2) by simp
    have "pos a \<notin> pos ` set xs" using Cons.prems(1) by simp
    then have "fold (\<lambda>x c. c[pos x := val x]) xs (cs[pos a := val a]) ! pos a = (cs[pos a := val a]) ! pos a"
      by (rule fold_update_other)
    then show ?thesis using xa Cons.prems(3) by simp
  qed
qed

lemma scaled_one [simp]: "scaled 1 x = x"
  by (cases x) (simp_all add: scaled_def cell_mul_def)

lemma scaled_zero [simp]: "scaled 0 x = Some 0"
  by (simp add: scaled_def)

lemma cell_add_zero [simp]: "cell_add x (Some 0) = x"
  by (cases x) (simp_all add: cell_add_def)

lemma cell_add_commute: "cell_add x y = cell_add y x"
  by (cases x; cases y) (simp_all add: cell_add_def)

lemma cell_add_None [simp]: "cell_add None y = None" "cell_add x None = None"
  by (simp_all add: cell_add_def split: option.splits)

lemma cell_mul_None [simp]: "cell_mul None y = None" "cell_mul x None = None"
  by (simp_all add: cell_mul_def split: option.splits)


lemma col_index_less:
  fixes i j m n :: nat
  assumes "i < m" "j < n"
  shows "i + j * m < m * n"
  using cell_index_less[of j n i m] assms by (simp add: ac_simps)

lemma list_all_upt: "list_all P [0..<n] \<longleftrightarrow> (\<forall>i<n. P i)"
  by (auto simp: list_all_iff)

lemma col_index_in:
  fixes i j m n :: nat
  assumes "i < m" "j < n" "m * n \<le> k"
  shows "i + j * m < k"
  using col_index_less[OF assms(1,2)] assms(3) by simp

lemma dgemv_in_bounds_col:
  assumes "m * n \<le> length A" "n \<le> length X" "m \<le> length ys"
  shows "dgemv_in_bounds CblasColMajor CblasNoTrans m n A m X 1 ys 1"
  unfolding dgemv_in_bounds_def list_all_upt mat_index_def
  using assms by (auto intro: col_index_in)

lemma dgemv_result_length [simp]:
  "length (dgemv_result order transA ly lx alpha A lda X incX beta ys incY) = length ys"
  unfolding dgemv_result_def by (rule fold_update_length)

lemma dgemv_result_nth:
  assumes "i < m" "m \<le> length ys"
  shows "dgemv_result CblasColMajor CblasNoTrans m n 1 A m X 1 1 ys 1 ! i
         = cell_add (ys ! i) (cell_sum (map (\<lambda>j. cell_mul (A ! (i + j * m)) (X ! j)) [0..<n]))"
proof -
  let ?val = "\<lambda>i. cell_add (cell_sum (map (\<lambda>j. cell_mul (A ! (i + j * m)) (X ! j)) [0..<n])) (ys ! i)"
  have "dgemv_result CblasColMajor CblasNoTrans m n 1 A m X 1 1 ys 1 = fold (\<lambda>i y. y[i := ?val i]) [0..<m] ys"
    by (simp add: dgemv_result_def mat_index_def)
  moreover have "fold (\<lambda>i y. y[i := ?val i]) [0..<m] ys ! i = ?val i"
    using assms fold_update_hit[where pos = "\<lambda>i. i" and val = ?val and xs = "[0..<m]" and x = i and cs = ys]
    by simp
  ultimately show ?thesis by (simp add: cell_add_commute)
qed

lemma dgemv_result_rest:
  assumes "m \<le> k"
  shows "dgemv_result CblasColMajor CblasNoTrans m n alpha A m X 1 beta ys 1 ! k = ys ! k"
  unfolding dgemv_result_def using assms
  by (intro fold_update_other) auto

lemma product_index_distinct:
  "distinct (map (\<lambda>x. fst x + snd x * m) (List.product [0..<m] [0..<n]))"
proof -
  have "inj_on (\<lambda>x. fst x + snd x * m) (set (List.product [0..<m] [0..<n]))"
  proof (rule inj_onI)
    fix x y assume x: "x \<in> set (List.product [0..<m] [0..<n])" and y: "y \<in> set (List.product [0..<m] [0..<n])"
      and e: "fst x + snd x * m = fst y + snd y * m"
    have fx: "fst x < m" and fy: "fst y < m" using x y by auto
    have "(fst x + snd x * m) mod m = fst x" "(fst x + snd x * m) div m = snd x" using fx by simp_all
    moreover have "(fst y + snd y * m) mod m = fst y" "(fst y + snd y * m) div m = snd y" using fy by simp_all
    ultimately have "fst x = fst y" "snd x = snd y" using e by simp_all
    then show "x = y" by (simp add: prod_eq_iff)
  qed
  then show ?thesis by (simp add: distinct_map distinct_product)
qed

lemma dgemm_result_length [simp]:
  "length (dgemm_result order transA transB m n k alpha A lda B ldb beta C ldc) = length C"
  unfolding dgemm_result_def by (rule fold_update_length)

lemma dgemm_result_nth:
  assumes "i < m" "j < n" "m * n \<le> length C"
  shows "dgemm_result CblasColMajor transA transB m n k 1 A lda B ldb 0 C m ! (i + j * m)
         = cell_sum (map (\<lambda>l. cell_mul (A ! mat_index CblasColMajor transA lda i l)
                                          (B ! mat_index CblasColMajor transB ldb l j)) [0..<k])"
proof -
  let ?val = "\<lambda>x. cell_sum (map (\<lambda>l. cell_mul (A ! mat_index CblasColMajor transA lda (fst x) l)
                                          (B ! mat_index CblasColMajor transB ldb l (snd x))) [0..<k])"
  let ?pos = "\<lambda>x. fst x + snd x * m"
  have ij: "(i, j) \<in> set (List.product [0..<m] [0..<n])" using assms by simp
  have b: "?pos (i, j) < length C" using col_index_in[OF assms] by simp
  have "dgemm_result CblasColMajor transA transB m n k 1 A lda B ldb 0 C m
        = fold (\<lambda>x c. c[?pos x := ?val x]) (List.product [0..<m] [0..<n]) C"
    by (simp add: dgemm_result_def mat_index_def[of CblasColMajor CblasNoTrans])
  moreover have "fold (\<lambda>x c. c[?pos x := ?val x]) (List.product [0..<m] [0..<n]) C ! ?pos (i, j) = ?val (i, j)"
    using ij b product_index_distinct[of m n]
    by (intro fold_update_hit[where pos = ?pos and val = ?val])
  ultimately show ?thesis by simp
qed

lemma dgemm_in_bounds_col:
  assumes "\<forall>i<m. \<forall>l<k. mat_index CblasColMajor transA lda i l < length A"
    "\<forall>l<k. \<forall>j<n. mat_index CblasColMajor transB ldb l j < length B"
    "m * n \<le> length C"
  shows "dgemm_in_bounds CblasColMajor transA transB m n k A lda B ldb C m"
  unfolding dgemm_in_bounds_def list_all_upt
  using assms by (auto simp: mat_index_def intro: col_index_in)

section \<open>The host allocations\<close>

lemma mallocs_upto:
  assumes "\<forall>j<k. malloc_ok p (m + j)"
  shows "(0 < k \<longrightarrow> malloc_ok p m) \<and> (1 < k \<longrightarrow> malloc_ok p (Suc m))
       \<and> (2 < k \<longrightarrow> malloc_ok p (Suc (Suc m))) \<and> (3 < k \<longrightarrow> malloc_ok p (Suc (Suc (Suc m))))
       \<and> (4 < k \<longrightarrow> malloc_ok p (Suc (Suc (Suc (Suc m)))))
       \<and> (5 < k \<longrightarrow> malloc_ok p (Suc (Suc (Suc (Suc (Suc m))))))
       \<and> (6 < k \<longrightarrow> malloc_ok p (Suc (Suc (Suc (Suc (Suc (Suc m)))))))
       \<and> (7 < k \<longrightarrow> malloc_ok p (Suc (Suc (Suc (Suc (Suc (Suc (Suc m))))))))
       \<and> (8 < k \<longrightarrow> malloc_ok p (Suc (Suc (Suc (Suc (Suc (Suc (Suc (Suc m)))))))))"
  using assms[rule_format, of 0] assms[rule_format, of 1] assms[rule_format, of 2]
    assms[rule_format, of 3] assms[rule_format, of 4] assms[rule_format, of 5]
    assms[rule_format, of 6] assms[rule_format, of 7] assms[rule_format, of 8]
  by (simp add: eval_nat_numeral)

lemma allocate_ok:
  "malloc_ok p (mallocs s) \<Longrightarrow>
   allocate p n assign error_code s = Inr (assign (Buf (replicate n None)) (s\<lparr>mallocs := Suc (mallocs s)\<rparr>))"
  by (simp add: allocate_def malloc_def HANDLE_ALLOCATION_ERROR_def)

lemma allocate_fail:
  "\<not> malloc_ok p (mallocs s) \<Longrightarrow>
   allocate p n assign error_code s =
     Inl (Exit 305 ((assign NULL (s\<lparr>mallocs := Suc (mallocs s)\<rparr>))
                      \<lparr>err := err (assign NULL (s\<lparr>mallocs := Suc (mallocs s)\<rparr>)) @ [Text (''Allocation error: '' @ error_code)]\<rparr>))"
  by (simp add: allocate_def malloc_def HANDLE_ALLOCATION_ERROR_def)

lemma allocations_ok:
  assumes "\<forall>k<9. malloc_ok p (mallocs s + k)"
  shows "allocations p s = Inr (allocated p s)"
  using mallocs_upto[OF assms]
  by (simp add: allocations_def allocate_ok allocated_def)

lemma allocations_fail:
  assumes "k < 9" "\<forall>j<k. malloc_ok p (mallocs s + j)" "\<not> malloc_ok p (mallocs s + k)"
  shows "\<exists>s'. allocations p s = Inl (Exit 305 s') \<and> out s' = out s \<and> rng s' = rng s
           \<and> err s' = err s @ [Text (''Allocation error: '' @ buffer_names ! k)]
           \<and> mallocs s' = mallocs s + k + 1 \<and> cudaMallocs s' = cudaMallocs s"
proof -
  note ok = mallocs_upto[OF assms(2)]
  consider "k = 0" | "k = 1" | "k = 2" | "k = 3" | "k = 4" | "k = 5" | "k = 6" | "k = 7" | "k = 8"
    using assms(1) by linarith
  then show ?thesis
  proof cases
    case 1
    then show ?thesis using assms(3) ok
      by (simp add: allocations_def allocate_ok allocate_fail buffer_names_def eval_nat_numeral)
  next
    case 2
    then show ?thesis using assms(3) ok
      by (simp add: allocations_def allocate_ok allocate_fail buffer_names_def eval_nat_numeral)
  next
    case 3
    then show ?thesis using assms(3) ok
      by (simp add: allocations_def allocate_ok allocate_fail buffer_names_def eval_nat_numeral)
  next
    case 4
    then show ?thesis using assms(3) ok
      by (simp add: allocations_def allocate_ok allocate_fail buffer_names_def eval_nat_numeral)
  next
    case 5
    then show ?thesis using assms(3) ok
      by (simp add: allocations_def allocate_ok allocate_fail buffer_names_def eval_nat_numeral)
  next
    case 6
    then show ?thesis using assms(3) ok
      by (simp add: allocations_def allocate_ok allocate_fail buffer_names_def eval_nat_numeral)
  next
    case 7
    then show ?thesis using assms(3) ok
      by (simp add: allocations_def allocate_ok allocate_fail buffer_names_def eval_nat_numeral)
  next
    case 8
    then show ?thesis using assms(3) ok
      by (simp add: allocations_def allocate_ok allocate_fail buffer_names_def eval_nat_numeral)
  next
    case 9
    then show ?thesis using assms(3) ok
      by (simp add: allocations_def allocate_ok allocate_fail buffer_names_def eval_nat_numeral)
  qed
qed

section \<open>The stages of the pipeline\<close>

lemma has_size_Buf: "has_size x n \<Longrightarrow> x = Buf (cells x)"
  by (cases x) (simp_all add: has_size_def cells_def)

lemma has_size_length: "has_size x n \<Longrightarrow> length (cells x) = n"
  by (cases x) (simp_all add: has_size_def cells_def)

lemma has_size_Buf_iff [simp]: "has_size (Buf cs) n \<longleftrightarrow> length cs = n"
  by (simp add: has_size_def)

lemma cells_Buf [simp]: "cells (Buf cs) = cs"
  by (simp add: cells_def)

lemma deref_Buf [simp]: "deref (Buf cs) = Inr cs"
  by (simp add: deref_def)

lemma defined_Inr [simp]: "defined (Inr x) = Inr x"
  by (simp add: defined_def)

lemma defined_Inl [simp]: "defined (Inl f) = Inl (Undefined f)"
  by (simp add: defined_def)

lemma free_Buf [simp]: "free (Buf cs) = Inr Freed"
  by (simp add: free_def)

lemma memcpy_all:
  "length d = n \<Longrightarrow> length s = n \<Longrightarrow> memcpy (Buf d) (Buf s) n = Inr (Buf s)"
  by (simp add: memcpy_def)

lemma overlay_length [simp]: "length (overlay new old) = length old"
  by (simp add: overlay_def)

lemma LAPACKE_dgesv_ok:
  assumes "lda * n \<le> length ac" "n \<le> length pivots" "ldb * nrhs \<le> length bc"
  shows "LAPACKE_dgesv p order n nrhs (Buf ac) lda pivots (Buf bc) ldb =
           Inr (case dgesv p order n nrhs ac lda bc ldb of
                  (status, a', pivots', b') \<Rightarrow>
                    (status, Buf (overlay a' ac), overlay (map Some pivots') pivots, Buf (overlay b' bc)))"
  using assms by (simp add: LAPACKE_dgesv_def split: prod.splits)

lemma sizedD:
  assumes "sized p s"
  shows "Q s = Buf (cells (Q s))" "length (cells (Q s)) = N p * N p"
    "Q_copy_1 s = Buf (cells (Q_copy_1 s))" "length (cells (Q_copy_1 s)) = N p * N p"
    "h s = Buf (cells (h s))" "length (cells (h s)) = N p"
    "V s = Buf (cells (V s))" "length (cells (V s)) = 2 * N p * N p"
    "W s = Buf (cells (W s))" "length (cells (W s)) = 2 * N p"
    "Y s = Buf (cells (Y s))" "length (cells (Y s)) = 2 * N p * N p"
    "z s = Buf (cells (z s))" "length (cells (z s)) = N p"
    "Q_tilde s = Buf (cells (Q_tilde s))" "length (cells (Q_tilde s)) = (2 * N p) * (2 * N p)"
    "h_tilde s = Buf (cells (h_tilde s))" "length (cells (h_tilde s)) = 2 * N p"
    "length (ipiv s) = N p"
  using assms unfolding sized_def by (auto dest: has_size_Buf has_size_length)

lemma part_A_solve_ok:
  assumes "sized p s"
  shows "part_A_solve p s = Inr (solved_z p s)"
proof -
  note d = sizedD[OF assms]
  have 1: "memcpy (z s) (h s) (N p) = Inr (Buf (cells (h s)))"
    using memcpy_all[of "cells (z s)" "N p" "cells (h s)"] d by simp
  have 2: "memcpy (Q_copy_1 s) (Q s) (N p * N p) = Inr (Buf (cells (Q s)))"
    using memcpy_all[of "cells (Q_copy_1 s)" "N p * N p" "cells (Q s)"] d by simp
  obtain status a' pivots' b' where
    e: "dgesv p LAPACK_COL_MAJOR (N p) (Suc 0) (cells (Q s)) (N p) (cells (h s)) (N p) = (status, a', pivots', b')"
    by (cases "dgesv p LAPACK_COL_MAJOR (N p) (Suc 0) (cells (Q s)) (N p) (cells (h s)) (N p)") auto
  have 3: "LAPACKE_dgesv p LAPACK_COL_MAJOR (N p) (Suc 0) (Buf (cells (Q s))) (N p) (ipiv s) (Buf (cells (h s))) (N p)
           = Inr (status, Buf (overlay a' (cells (Q s))), overlay (map Some pivots') (ipiv s),
                     Buf (overlay b' (cells (h s))))"
    using d LAPACKE_dgesv_ok[of "N p" "N p" "cells (Q s)" "ipiv s" "N p" "Suc 0" "cells (h s)" p LAPACK_COL_MAJOR]
    by (simp add: e)
  show ?thesis
    unfolding part_A_solve_def 1 defined_Inr and_then_Inr
    by (simp add: 2 3 e solved_z_def status_line_def)
qed


lemma solved_z_fields [simp]:
  "Q (solved_z p s) = Q s" "h (solved_z p s) = h s" "V (solved_z p s) = V s" "W (solved_z p s) = W s"
  "Y (solved_z p s) = Y s" "Q_tilde (solved_z p s) = Q_tilde s" "h_tilde (solved_z p s) = h_tilde s"
  "rng (solved_z p s) = rng s" "err (solved_z p s) = err s" "mallocs (solved_z p s) = mallocs s"
  "cudaMallocs (solved_z p s) = cudaMallocs s"
  "Q_tilde_dev (solved_z p s) = Q_tilde_dev s" "h_tilde_dev (solved_z p s) = h_tilde_dev s"
  by (simp_all add: solved_z_def split: prod.splits)

lemma solved_z_sized: "sized p s \<Longrightarrow> sized p (solved_z p s)"
  by (auto simp: sized_def solved_z_def split: prod.splits dest: has_size_length)

lemma dgemv_is_spec:
  assumes "length w = 2 * n"
  shows "dgemv_result CblasColMajor CblasNoTrans (2 * n) n 1 v (2 * n) x 1 1 w 1 = h_tilde_spec n w v x"
proof (rule nth_equalityI)
  show "length (dgemv_result CblasColMajor CblasNoTrans (2 * n) n 1 v (2 * n) x 1 1 w 1) = length (h_tilde_spec n w v x)"
    using assms by (simp add: h_tilde_spec_def)
next
  fix i assume "i < length (dgemv_result CblasColMajor CblasNoTrans (2 * n) n 1 v (2 * n) x 1 1 w 1)"
  then have i: "i < 2 * n" using assms by simp
  then show "dgemv_result CblasColMajor CblasNoTrans (2 * n) n 1 v (2 * n) x 1 1 w 1 ! i = h_tilde_spec n w v x ! i"
    using assms dgemv_result_nth[of i "2 * n" w n v x] by (simp add: h_tilde_spec_def)
qed

lemma cblas_dgemv_ok:
  assumes "length w = 2 * n" "length v = 2 * n * n" "length x = n"
  shows "cblas_dgemv CblasColMajor CblasNoTrans (2 * n) n 1 v (2 * n) x 1 1 w 1 = Inr (h_tilde_spec n w v x)"
  using assms dgemv_in_bounds_col[of "2 * n" n v x w] dgemv_is_spec[of w n v x]
  by (simp add: cblas_dgemv_def)

lemma part_A_assemble_ok:
  assumes "sized p s"
  shows "part_A_assemble p s = Inr (assembled_h p s)"
proof -
  note d = sizedD[OF assms]
  have 1: "memcpy (h_tilde s) (W s) (2 * N p) = Inr (Buf (cells (W s)))"
    using memcpy_all[of "cells (h_tilde s)" "2 * N p" "cells (W s)"] d by simp
  have 2: "cblas_dgemv CblasColMajor CblasNoTrans (2 * N p) (N p) 1 (cells (V s)) (2 * N p) (cells (z s)) 1 1 (cells (W s)) 1
           = Inr (h_tilde_spec (N p) (cells (W s)) (cells (V s)) (cells (z s)))"
    using d by (intro cblas_dgemv_ok) simp_all
  have 3: "deref (V s) = Inr (cells (V s))" "deref (z s) = Inr (cells (z s))"
    "free (Q_copy_1 s) = Inr Freed"
    using d(3,7,13) deref_Buf free_Buf by metis+
  show ?thesis
    unfolding part_A_assemble_def 1 defined_Inr and_then_Inr
    by (simp add: 2 3 assembled_h_def del: One_nat_def)
qed

lemma assembled_h_fields [simp]:
  "Q (assembled_h p s) = Q s" "h (assembled_h p s) = h s" "V (assembled_h p s) = V s" "W (assembled_h p s) = W s"
  "Y (assembled_h p s) = Y s" "z (assembled_h p s) = z s" "Q_tilde (assembled_h p s) = Q_tilde s"
  "ipiv (assembled_h p s) = ipiv s" "info (assembled_h p s) = info s" "out (assembled_h p s) = out s"
  "rng (assembled_h p s) = rng s" "err (assembled_h p s) = err s" "mallocs (assembled_h p s) = mallocs s"
  "cudaMallocs (assembled_h p s) = cudaMallocs s"
  "Q_tilde_dev (assembled_h p s) = Q_tilde_dev s" "h_tilde_dev (assembled_h p s) = h_tilde_dev s"
  "Q_copy_1 (assembled_h p s) = Freed"
  by (simp_all add: assembled_h_def)

lemma transposed_V_length [simp]: "length (transposed_V p s) = length (cells (Y s))"
  by (simp add: transposed_V_def)

lemma part_B_solve_ok:
  assumes "Q s = Buf (cells (Q s))" "length (cells (Q s)) = N p * N p"
    "V s = Buf (cells (V s))" "length (cells (V s)) = 2 * N p * N p"
    "Y s = Buf (cells (Y s))" "length (cells (Y s)) = 2 * N p * N p"
    "length (ipiv s) = N p"
    and "int (N p * (2 * N p)) \<le> INT_MAX"
  shows "part_B_solve p s = Inr (solved_Y p s)"
proof -
  have 1: "deref (Y s) = Inr (cells (Y s))" "deref (V s) = Inr (cells (V s))"
    using assms(3,5) deref_Buf by metis+
  have 2: "copy_as_transpose (cells (Y s)) (cells (V s)) (int (N p)) (2 * int (N p)) = Inr (transposed_V p s)"
    using copy_as_transpose_result[of "N p" "2 * N p" "cells (V s)" "cells (Y s)"] assms
    by (simp add: transposed_V_def)
  obtain status a' pivots' b' where
    e: "dgesv p LAPACK_COL_MAJOR (N p) (2 * N p) (cells (Q s)) (N p) (transposed_V p s) (N p) = (status, a', pivots', b')"
    by (cases "dgesv p LAPACK_COL_MAJOR (N p) (2 * N p) (cells (Q s)) (N p) (transposed_V p s) (N p)") auto
  have 3: "LAPACKE_dgesv p LAPACK_COL_MAJOR (N p) (2 * N p) (Q s) (N p) (ipiv s) (Buf (transposed_V p s)) (N p)
           = Inr (status, Buf (overlay a' (cells (Q s))), overlay (map Some pivots') (ipiv s),
                     Buf (overlay b' (transposed_V p s)))"
    using assms LAPACKE_dgesv_ok[of "N p" "N p" "cells (Q s)" "ipiv s" "N p" "2 * N p" "transposed_V p s" p LAPACK_COL_MAJOR]
    by (simp add: e)
  show ?thesis
    unfolding part_B_solve_def 1 defined_Inr and_then_Inr 2
    by (simp add: 3 e solved_Y_def status_line_def)
qed

lemma solved_Y_fields [simp]:
  "h (solved_Y p s) = h s" "V (solved_Y p s) = V s" "W (solved_Y p s) = W s" "z (solved_Y p s) = z s"
  "Q_copy_1 (solved_Y p s) = Q_copy_1 s" "Q_tilde (solved_Y p s) = Q_tilde s" "h_tilde (solved_Y p s) = h_tilde s"
  "rng (solved_Y p s) = rng s" "err (solved_Y p s) = err s" "mallocs (solved_Y p s) = mallocs s"
  "cudaMallocs (solved_Y p s) = cudaMallocs s"
  "Q_tilde_dev (solved_Y p s) = Q_tilde_dev s" "h_tilde_dev (solved_Y p s) = h_tilde_dev s"
  by (simp_all add: solved_Y_def split: prod.splits)

lemma solved_Y_Y: "Y (solved_Y p s) = Buf (cells (Y (solved_Y p s)))"
  "length (cells (Y (solved_Y p s))) = length (cells (Y s))"
  by (simp_all add: solved_Y_def split: prod.splits)

lemma dgemm_is_spec:
  assumes "length c = (2 * n) * (2 * n)"
  shows "dgemm_result CblasColMajor CblasNoTrans CblasNoTrans (2 * n) (2 * n) n 1 v (2 * n) y n 0 c (2 * n)
         = Q_tilde_spec n v y"
proof (rule nth_equalityI)
  show "length (dgemm_result CblasColMajor CblasNoTrans CblasNoTrans (2 * n) (2 * n) n 1 v (2 * n) y n 0 c (2 * n))
        = length (Q_tilde_spec n v y)"
    using assms by (simp add: Q_tilde_spec_def)
next
  fix k assume "k < length (dgemm_result CblasColMajor CblasNoTrans CblasNoTrans (2 * n) (2 * n) n 1 v (2 * n) y n 0 c (2 * n))"
  then have k: "k < (2 * n) * (2 * n)" using assms by simp
  then have n: "0 < 2 * n" by (cases n) simp_all
  have i: "k mod (2 * n) < 2 * n" using n by simp
  have j: "k div (2 * n) < 2 * n" using k by (simp add: less_mult_imp_div_less)
  have idx: "k mod (2 * n) + k div (2 * n) * (2 * n) = k" by (rule mod_div_mult_eq)
  have "dgemm_result CblasColMajor CblasNoTrans CblasNoTrans (2 * n) (2 * n) n 1 v (2 * n) y n 0 c (2 * n)
          ! (k mod (2 * n) + k div (2 * n) * (2 * n))
        = cell_sum (map (\<lambda>l. cell_mul (v ! mat_index CblasColMajor CblasNoTrans (2 * n) (k mod (2 * n)) l)
                                          (y ! mat_index CblasColMajor CblasNoTrans n l (k div (2 * n)))) [0..<n])"
    using i j assms by (intro dgemm_result_nth) simp_all
  then show "dgemm_result CblasColMajor CblasNoTrans CblasNoTrans (2 * n) (2 * n) n 1 v (2 * n) y n 0 c (2 * n) ! k
             = Q_tilde_spec n v y ! k"
    unfolding idx using k by (simp add: Q_tilde_spec_def mat_index_def)
qed

lemma cblas_dgemm_ok:
  assumes "length c = (2 * n) * (2 * n)" "length v = 2 * n * n" "length y = 2 * n * n"
  shows "cblas_dgemm CblasColMajor CblasNoTrans CblasNoTrans (2 * n) (2 * n) n 1 v (2 * n) y n 0 c (2 * n)
         = Inr (Q_tilde_spec n v y)"
proof -
  have a: "\<forall>i<2 * n. \<forall>l<n. mat_index CblasColMajor CblasNoTrans (2 * n) i l < length v"
    using assms(2) by (auto simp: mat_index_def intro: col_index_in)
  have b: "\<forall>l<n. \<forall>j<2 * n. mat_index CblasColMajor CblasNoTrans n l j < length y"
    using assms(3) by (auto simp: mat_index_def intro!: col_index_in)
  have "dgemm_in_bounds CblasColMajor CblasNoTrans CblasNoTrans (2 * n) (2 * n) n v (2 * n) y n c (2 * n)"
    using a b assms(1) by (intro dgemm_in_bounds_col) simp_all
  then show ?thesis using dgemm_is_spec[OF assms(1)] by (simp add: cblas_dgemm_def)
qed

lemma print_matrix_row:
  assumes "i < m" "n \<le> m" "m * m \<le> length a" "int (m * m) \<le> INT_MAX"
  shows "for_loop n (\<lambda>j output.
           and_then (c_int (int j * int m)) (\<lambda>x.
           and_then (c_int (x + int i)) (\<lambda>k.
           and_then (rd a k) (\<lambda>v. Inr (output @ [Number v]))))) output
         = Inr (output @ map (\<lambda>j. Number (a ! (j * m + i))) [0..<n])"
proof -
  let ?f = "\<lambda>n. output @ map (\<lambda>j. Number (a ! (j * m + i))) [0..<n]"
  have "for_loop n (\<lambda>j output.
           and_then (c_int (int j * int m)) (\<lambda>x.
           and_then (c_int (x + int i)) (\<lambda>k.
           and_then (rd a k) (\<lambda>v. Inr (output @ [Number v]))))) (?f 0) = Inr (?f n)"
  proof (rule for_loop_trajectory)
    fix j assume "j < n"
    then have j: "j < m" using assms(2) by simp
    have b: "j * m + i < m * m" using cell_index_less[OF j assms(1)] .
    then have b': "j * m < m * m" by linarith
    have 1: "c_int (int j * int m) = Inr (int (j * m))"
      using c_int_nat[OF b' assms(4)] by simp
    have 2: "c_int (int (j * m) + int i) = Inr (int (j * m + i))"
      using c_int_nat[OF b assms(4)] by simp
    have 3: "rd a (int (j * m + i)) = Inr (a ! (j * m + i))"
      using b assms(3) by (intro rd_nat) simp
    show "and_then (c_int (int j * int m)) (\<lambda>x.
           and_then (c_int (x + int i)) (\<lambda>k.
           and_then (rd a k) (\<lambda>v. Inr (?f j @ [Number v])))) = Inr (?f (Suc j))"
      unfolding 1 and_then_Inr 2 3 by simp
  qed
  then show ?thesis by simp
qed

lemma print_matrix_ok:
  assumes "m * m \<le> length a" "int (m * m) \<le> INT_MAX"
  shows "print_matrix desc LAPACK_COL_MAJOR 0 m m a output = Inr (output @ printed_matrix desc m m m a)"
proof -
  let ?row = "\<lambda>i. map (\<lambda>j. Number (a ! (j * m + i))) [0..<m] @ [Newline]"
  let ?f = "\<lambda>n. (output @ [Text desc]) @ concat (map ?row [0..<n])"
  let ?body = "\<lambda>i output.
        and_then
          (for_loop m (\<lambda>j output.
               and_then (c_int (int j * int m)) (\<lambda>x.
               and_then (c_int (x + int i)) (\<lambda>k.
               and_then (rd a k) (\<lambda>v. Inr (output @ [Number v]))))) output)
          (\<lambda>output. Inr (output @ [Newline]))"
  have "for_loop m ?body (?f 0) = Inr (?f m)"
  proof (rule for_loop_trajectory)
    fix i assume i: "i < m"
    show "?body i (?f i) = Inr (?f (Suc i))"
      using print_matrix_row[OF i le_refl assms] by simp
  qed
  then show ?thesis
    by (simp add: print_matrix_def printed_matrix_def)
qed

lemma part_B_assemble_ok:
  assumes "V s = Buf (cells (V s))" "length (cells (V s)) = 2 * N p * N p"
    "Y s = Buf (cells (Y s))" "length (cells (Y s)) = 2 * N p * N p"
    "Q_tilde s = Buf (cells (Q_tilde s))" "length (cells (Q_tilde s)) = (2 * N p) * (2 * N p)"
    and "int ((2 * N p) * (2 * N p)) \<le> INT_MAX"
  shows "part_B_assemble p s = Inr (assembled_Q p s)"
proof -
  have 1: "deref (V s) = Inr (cells (V s))" "deref (Y s) = Inr (cells (Y s))"
    "deref (Q_tilde s) = Inr (cells (Q_tilde s))"
    using assms(1,3,5) deref_Buf by metis+
  have 2: "cblas_dgemm CblasColMajor CblasNoTrans CblasNoTrans (2 * N p) (2 * N p) (N p) 1
             (cells (V s)) (2 * N p) (cells (Y s)) (N p) 0 (cells (Q_tilde s)) (2 * N p)
           = Inr (Q_tilde_spec (N p) (cells (V s)) (cells (Y s)))"
    using assms by (intro cblas_dgemm_ok) simp_all
  have 3: "print_matrix ''Qtilde'' LAPACK_COL_MAJOR 0 (2 * N p) (2 * N p) (Q_tilde_spec (N p) (cells (V s)) (cells (Y s))) outp
           = Inr (outp @ printed_matrix ''Qtilde'' (2 * N p) (2 * N p) (2 * N p) (Q_tilde_spec (N p) (cells (V s)) (cells (Y s))))"
    for outp
    using assms(7) by (intro print_matrix_ok) (simp_all add: Q_tilde_spec_def)
  show ?thesis
    unfolding part_B_assemble_def 1 defined_Inr and_then_Inr 2
    by (simp add: 3 assembled_Q_def)
qed

lemma assembled_Q_fields [simp]:
  "Q (assembled_Q p s) = Q s" "h (assembled_Q p s) = h s" "V (assembled_Q p s) = V s" "W (assembled_Q p s) = W s"
  "Y (assembled_Q p s) = Y s" "z (assembled_Q p s) = z s" "h_tilde (assembled_Q p s) = h_tilde s"
  "Q_copy_1 (assembled_Q p s) = Q_copy_1 s"
  "ipiv (assembled_Q p s) = ipiv s" "info (assembled_Q p s) = info s"
  "rng (assembled_Q p s) = rng s" "err (assembled_Q p s) = err s" "mallocs (assembled_Q p s) = mallocs s"
  "cudaMallocs (assembled_Q p s) = cudaMallocs s"
  "Q_tilde_dev (assembled_Q p s) = Q_tilde_dev s" "h_tilde_dev (assembled_Q p s) = h_tilde_dev s"
  "Q_tilde (assembled_Q p s) = Buf (Q_tilde_spec (N p) (cells (V s)) (cells (Y s)))"
  by (simp_all add: assembled_Q_def)

lemma small_enough:
  assumes "int ((2 * N p) * (2 * N p)) \<le> INT_MAX"
  shows "int (N p * (2 * N p)) \<le> INT_MAX"
proof -
  have "N p * (2 * N p) \<le> (2 * N p) * (2 * N p)" by simp
  then have "int (N p * (2 * N p)) \<le> int ((2 * N p) * (2 * N p))" by (simp only: of_nat_le_iff)
  then show ?thesis using assms by linarith
qed

lemma part_A_ok:
  assumes "sized p s"
  shows "part_A p s = Inr (assembled_h p (solved_z p s))"
  unfolding part_A_def part_A_solve_ok[OF assms] and_then_Inr
  by (rule part_A_assemble_ok[OF solved_z_sized[OF assms]])

lemma part_B_ok:
  assumes "Q s = Buf (cells (Q s))" "length (cells (Q s)) = N p * N p"
    "V s = Buf (cells (V s))" "length (cells (V s)) = 2 * N p * N p"
    "Y s = Buf (cells (Y s))" "length (cells (Y s)) = 2 * N p * N p"
    "Q_tilde s = Buf (cells (Q_tilde s))" "length (cells (Q_tilde s)) = (2 * N p) * (2 * N p)"
    "length (ipiv s) = N p"
    and "int ((2 * N p) * (2 * N p)) \<le> INT_MAX"
  shows "part_B p s = Inr (assembled_Q p (solved_Y p s))"
proof -
  have 1: "part_B_solve p s = Inr (solved_Y p s)"
    using assms small_enough[OF assms(10)] by (intro part_B_solve_ok)
  have 2: "part_B_assemble p (solved_Y p s) = Inr (assembled_Q p (solved_Y p s))"
    using assms solved_Y_Y[of p s] by (intro part_B_assemble_ok) simp_all
  show ?thesis unfolding part_B_def 1 and_then_Inr by (rule 2)
qed

lemma pipeline_ok:
  assumes "sized p s" "int ((2 * N p) * (2 * N p)) \<le> INT_MAX"
  shows "and_then (part_A p s) (part_B p) = Inr (assembled_Q p (solved_Y p (assembled_h p (solved_z p s))))"
proof -
  note d = sizedD[OF solved_z_sized[OF assms(1)]]
  have "part_B p (assembled_h p (solved_z p s)) = Inr (assembled_Q p (solved_Y p (assembled_h p (solved_z p s))))"
    using d assms(2) by (intro part_B_ok) simp_all
  then show ?thesis unfolding part_A_ok[OF assms(1)] and_then_Inr .
qed

lemma part_C_first_fails:
  assumes "cudaMalloc_status p (cudaMallocs s) \<noteq> cudaSuccess"
  shows "part_C p s = Inl (Exit EXIT_FAILURE
           (s\<lparr>cudaMallocs := Suc (cudaMallocs s),
              out := out s @ [CudaError (cudaMalloc_status p (cudaMallocs s))]\<rparr>))"
  using assms by (simp add: part_C_def cudaMalloc_def HandleError_def Let_def)

lemma part_C_second_fails:
  assumes "cudaMalloc_status p (cudaMallocs s) = cudaSuccess"
    "cudaMalloc_status p (Suc (cudaMallocs s)) \<noteq> cudaSuccess"
  shows "part_C p s = Inl (Exit EXIT_FAILURE
           (s\<lparr>cudaMallocs := Suc (Suc (cudaMallocs s)),
              Q_tilde_dev := DevBuf ((2 * N p) * (2 * N p)),
              out := out s @ [CudaError (cudaMalloc_status p (Suc (cudaMallocs s)))]\<rparr>))"
  using assms by (simp add: part_C_def cudaMalloc_def HandleError_def Let_def)

lemma part_C_ok:
  assumes "cudaMalloc_status p (cudaMallocs s) = cudaSuccess"
    "cudaMalloc_status p (Suc (cudaMallocs s)) = cudaSuccess"
  shows "part_C p s = Inr (s\<lparr>cudaMallocs := Suc (Suc (cudaMallocs s)),
              Q_tilde_dev := DevBuf ((2 * N p) * (2 * N p)), h_tilde_dev := DevBuf (2 * N p)\<rparr>)"
  using assms by (simp add: part_C_def cudaMalloc_def HandleError_def Let_def)

section \<open>The data provider\<close>

lemma load_nat: "k < length cs \<Longrightarrow> i = int k \<Longrightarrow> load (Buf cs) i = Inr (cs ! k)"
  by (simp add: load_def rd_def)

lemma store_nat: "k < length cs \<Longrightarrow> i = int k \<Longrightarrow> store (Buf cs) i v = Inr (Buf (cs[k := v]))"
  by (simp add: store_def wr_def)

lemma fold_length_preserved:
  assumes "\<And>x c. length (f x c) = length c"
  shows "length (fold f xs cs) = length cs"
  using assms by (induction xs arbitrary: cs) simp_all

lemma generator_after_Suc:
  "rand p (generator_after p g n) = (r, g') \<Longrightarrow> generator_after p g (Suc n) = g'"
  by (simp add: generator_after_def)

lemma draw_eq:
  "rand p (generator_after p g n) = (r, g') \<Longrightarrow> draw p g n = random_entry (RAND_MAX p) r"
  by (simp add: draw_def)

lemma Q_init_data_length [simp]: "n \<le> N p * N p \<Longrightarrow> length (Q_init_data p n) = N p * N p"
  by (simp add: Q_init_data_def)

lemma Q_init_data_Suc:
  assumes "i < N p * N p"
  shows "(Q_init_data p i)[i := Some (draw p (srand p 1001) i)] = Q_init_data p (Suc i)"
proof -
  have "replicate (N p * N p - i) None = None # replicate (N p * N p - Suc i) (None :: 'b option)"
    using assms by (cases "N p * N p - i") (simp_all add: Suc_diff_Suc)
  then show ?thesis
    by (simp add: Q_init_data_def list_update_append)
qed

lemma init_Q_init_loop:
  fixes s :: "('g, 'a::linordered_field) state"
  assumes "rng s = srand p 1001"
  shows "for_loop (N p * N p) (init_Q_init p) (Buf (replicate (N p * N p) None), s)
         = Inr (Buf (Q_init_data p (N p * N p)), s\<lparr>rng := generator_after p (srand p 1001) (N p * N p)\<rparr>)"
proof -
  let ?f = "\<lambda>i. (Buf (Q_init_data p i), s\<lparr>rng := generator_after p (srand p 1001) i\<rparr>)"
  have "for_loop (N p * N p) (init_Q_init p) (?f 0) = Inr (?f (N p * N p))"
  proof (rule for_loop_trajectory)
    fix i assume i: "i < N p * N p"
    obtain r g' where e: "rand p (generator_after p (srand p 1001) i) = (r, g')"
      by (cases "rand p (generator_after p (srand p 1001) i)") auto
    have 1: "store (Buf (Q_init_data p i)) (int i) (Some (random_entry (RAND_MAX p) r))
             = Inr (Buf (Q_init_data p (Suc i)))"
      using i store_nat[of i "Q_init_data p i" "int i"] Q_init_data_Suc[OF i] draw_eq[OF e]
      by simp
    show "init_Q_init p i (?f i) = Inr (?f (Suc i))"
      by (simp add: init_Q_init_def e 1 generator_after_Suc[OF e])
  qed
  moreover have "?f 0 = (Buf (replicate (N p * N p) None), s)"
    using assms by (simp add: Q_init_data_def generator_after_def)
  ultimately show ?thesis by simp
qed


lemma diag_index_less:
  fixes i n :: nat
  assumes "i < n"
  shows "i * (n + 1) < n * n"
  using cell_index_less[OF assms assms] by (simp add: algebra_simps)

lemma V_index_less:
  fixes i n :: nat
  assumes "i < n"
  shows "i * (2 * n + 1) + n < 2 * n * n" "i * (2 * n + 1) < 2 * n * n"
proof -
  have "i * (2 * n) + (i + n) < n * (2 * n)"
    using assms by (intro cell_index_less) simp_all
  then show "i * (2 * n + 1) + n < 2 * n * n" by (simp add: algebra_simps)
  then show "i * (2 * n + 1) < 2 * n * n" by linarith
qed

lemma initialized_upto_cells:
  "length (cells (Q (initialized_upto p q n s))) = length q"
  "length (cells (h (initialized_upto p q n s))) = length (cells (h s))"
  "length (cells (V (initialized_upto p q n s))) = length (cells (V s))"
  "length (cells (W (initialized_upto p q n s))) = length (cells (W s))"
  by (simp_all add: initialized_upto_def fold_length_preserved)

lemma init_row_step:
  fixes s :: "('g, 'a::linordered_field) state"
  assumes "i < N p" "length q = N p * N p" "length (cells (h s)) = N p"
    "length (cells (V s)) = 2 * N p * N p" "length (cells (W s)) = 2 * N p"
  shows "init_row p i (initialized_upto p q i s) = Inr (initialized_upto p q (Suc i) s)"
proof -
  let ?s = "initialized_upto p q i s"
  let ?g = "srand p 1001"
  let ?cq = "fold (\<lambda>i c. c[i * (N p + 1) := cell_add (c ! (i * (N p + 1))) (Some (2 * of_nat (N p)))]) [0..<i] q"
  let ?ch = "fold (\<lambda>i c. c[i := Some (draw p ?g (N p * N p + i))]) [0..<i] (cells (h s))"
  let ?cv = "fold (\<lambda>i c. c[i * (2 * N p + 1) := Some 1, i * (2 * N p + 1) + N p := Some (- 1)]) [0..<i] (cells (V s))"
  let ?cw = "fold (\<lambda>i c. c[i := Some 10, i + N p := Some (- 9)]) [0..<i] (cells (W s))"
  have f: "Q ?s = Buf ?cq" "h ?s = Buf ?ch" "V ?s = Buf ?cv" "W ?s = Buf ?cw"
    "rng ?s = generator_after p ?g (N p * N p + i)"
    by (simp_all add: initialized_upto_def)
  have l: "length ?cq = N p * N p" "length ?ch = N p" "length ?cv = 2 * N p * N p" "length ?cw = 2 * N p"
    using assms by (simp_all add: fold_length_preserved)
  obtain r g' where e: "rand p (generator_after p ?g (N p * N p + i)) = (r, g')"
    by (cases "rand p (generator_after p ?g (N p * N p + i))") auto
  have 1: "load (Buf ?cq) (int i * (int (N p) + 1)) = Inr (?cq ! (i * (N p + 1)))"
    using diag_index_less[OF assms(1)] l(1) by (intro load_nat) (simp_all add: algebra_simps)
  have 2: "store (Buf ?cq) (int i * (int (N p) + 1)) v = Inr (Buf (?cq[i * (N p + 1) := v]))" for v
    using diag_index_less[OF assms(1)] l(1) by (intro store_nat) (simp_all add: algebra_simps)
  have 3: "store (Buf ?ch) (int i) v = Inr (Buf (?ch[i := v]))" for v
    using assms(1) l(2) by (intro store_nat) (simp_all add: algebra_simps)
  have 4: "store (Buf ?cv) (int i * (2 * int (N p) + 1)) v = Inr (Buf (?cv[i * (2 * N p + 1) := v]))" for v
    using V_index_less(2)[OF assms(1)] l(3) by (intro store_nat) (simp_all add: algebra_simps)
  have 5: "store (Buf (?cv[i * (2 * N p + 1) := v])) (int i * (2 * int (N p) + 1) + int (N p)) v'
           = Inr (Buf (?cv[i * (2 * N p + 1) := v, i * (2 * N p + 1) + N p := v']))" for v v'
    using V_index_less(1)[OF assms(1)] l(3) by (intro store_nat) (simp_all add: algebra_simps)
  have 6: "store (Buf ?cw) (int i) v = Inr (Buf (?cw[i := v]))" for v
    using assms(1) l(4) by (intro store_nat) (simp_all add: algebra_simps)
  have 7: "store (Buf (?cw[i := v])) (int i + int (N p)) v' = Inr (Buf (?cw[i := v, i + N p := v']))" for v v'
    using assms(1) l(4) by (intro store_nat) (simp_all add: algebra_simps)
  have 8: "generator_after p ?g (Suc (N p * N p + i)) = g'"
    "draw p ?g (N p * N p + i) = random_entry (RAND_MAX p) r"
    using generator_after_Suc[OF e] draw_eq[OF e] by simp_all
  show ?thesis
    unfolding init_row_def f 1 and_then_Inr 2 e Let_def prod.case 3 4 5 6 7
    by (simp add: 8 initialized_upto_def)
qed

lemma init_row_loop:
  fixes s :: "('g, 'a::linordered_field) state"
  assumes "length q = N p * N p" "length (cells (h s)) = N p"
    "length (cells (V s)) = 2 * N p * N p" "length (cells (W s)) = 2 * N p"
  shows "for_loop (N p) (init_row p) (initialized_upto p q 0 s) = Inr (initialized_upto p q (N p) s)"
  using init_row_step[OF _ assms] by (intro for_loop_trajectory)

lemma cblas_dgemm_square:
  assumes "length a = n * n" "length c = n * n"
  shows "cblas_dgemm CblasColMajor CblasTrans CblasNoTrans n n n 1 a n a n 0 c n
         = Inr (dgemm_result CblasColMajor CblasTrans CblasNoTrans n n n 1 a n a n 0 c n)"
proof -
  have a: "\<forall>i<n. \<forall>l<n. mat_index CblasColMajor CblasTrans n i l < length a"
    using assms(1) by (auto simp: mat_index_def intro: col_index_in)
  have b: "\<forall>l<n. \<forall>j<n. mat_index CblasColMajor CblasNoTrans n l j < length a"
    using assms(1) by (auto simp: mat_index_def intro: col_index_in)
  have "dgemm_in_bounds CblasColMajor CblasTrans CblasNoTrans n n n a n a n c n"
    using a b assms(2) by (intro dgemm_in_bounds_col) simp_all
  then show ?thesis by (simp add: cblas_dgemm_def)
qed

lemma init_matrices_ok:
  fixes s :: "('g, 'a::linordered_field) state"
  assumes "sized p s" "malloc_ok p (mallocs s)"
  shows "init_matrices p s = Inr (EXIT_SUCCESS, initialized p s)"
proof -
  note d = sizedD[OF assms(1)]
  let ?s0 = "s\<lparr>mallocs := Suc (mallocs s), rng := srand p 1001\<rparr>"
  let ?s1 = "?s0\<lparr>rng := generator_after p (srand p 1001) (N p * N p)\<rparr>"
  let ?qi = "Q_init_data p (N p * N p)"
  let ?q = "dgemm_result CblasColMajor CblasTrans CblasNoTrans (N p) (N p) (N p) 1 ?qi (N p) ?qi (N p) 0 (cells (Q s)) (N p)"
  have nn: "Q s \<noteq> NULL" "h s \<noteq> NULL" "V s \<noteq> NULL" "W s \<noteq> NULL"
    using d(1,5,7,9) by (metis ptr.distinct(1))+
  have m: "malloc p (N p * N p) s = (Buf (replicate (N p * N p) None), s\<lparr>mallocs := Suc (mallocs s)\<rparr>)"
    using assms(2) by (simp add: malloc_def)
  have 1: "for_loop (N p * N p) (init_Q_init p) (Buf (replicate (N p * N p) None), ?s0) = Inr (Buf ?qi, ?s1)"
    by (intro init_Q_init_loop) simp
  have 2: "deref (Q s) = Inr (cells (Q s))"
    using d(1) deref_Buf by metis
  have 3: "cblas_dgemm CblasColMajor CblasTrans CblasNoTrans (N p) (N p) (N p) 1 ?qi (N p) ?qi (N p) 0 (cells (Q s)) (N p)
           = Inr ?q"
    using d(2) by (intro cblas_dgemm_square) simp_all
  let ?s2 = "s\<lparr>mallocs := Suc (mallocs s), rng := generator_after p (srand p 1001) (N p * N p), Q := Buf ?q\<rparr>"
  have 4: "?s2 = initialized_upto p ?q 0 (s\<lparr>mallocs := Suc (mallocs s)\<rparr>)"
    using d(5,7,9) by (simp add: initialized_upto_def)
  have 5: "for_loop (N p) (init_row p) ?s2 = Inr (initialized p s)"
    unfolding 4 initialized_def using d by (intro init_row_loop) simp_all
  show ?thesis
    unfolding init_matrices_def using nn
    by (simp add: m 1 2 3 5)
qed

section \<open>The whole program\<close>

lemma initial_fields [simp]:
  "mallocs (initial p g) = 0" "cudaMallocs (initial p g) = 0" "out (initial p g) = []"
  "err (initial p g) = []" "rng (initial p g) = g" "ipiv (initial p g) = replicate (N p) None"
  by (simp_all add: initial_def)

lemma allocated_fields [simp]:
  "mallocs (allocated p s) = mallocs s + 9" "cudaMallocs (allocated p s) = cudaMallocs s"
  "out (allocated p s) = out s" "err (allocated p s) = err s" "rng (allocated p s) = rng s"
  "ipiv (allocated p s) = ipiv s"
  "V (allocated p s) = Buf (replicate (2 * N p * N p) None)"
  "Y (allocated p s) = Buf (replicate (2 * N p * N p) None)"
  "Q_tilde (allocated p s) = Buf (replicate ((2 * N p) * (2 * N p)) None)"
  "h_tilde (allocated p s) = Buf (replicate (2 * N p) None)"
  by (simp_all add: allocated_def)

lemma allocated_sized: "length (ipiv s) = N p \<Longrightarrow> sized p (allocated p s)"
  by (simp add: sized_def allocated_def)

lemma initialized_fields [simp]:
  "Q_copy_1 (initialized p s) = Q_copy_1 s" "Y (initialized p s) = Y s" "z (initialized p s) = z s"
  "Q_tilde (initialized p s) = Q_tilde s" "h_tilde (initialized p s) = h_tilde s"
  "ipiv (initialized p s) = ipiv s" "info (initialized p s) = info s" "out (initialized p s) = out s"
  "err (initialized p s) = err s" "mallocs (initialized p s) = Suc (mallocs s)"
  "cudaMallocs (initialized p s) = cudaMallocs s"
  "Q_tilde_dev (initialized p s) = Q_tilde_dev s" "h_tilde_dev (initialized p s) = h_tilde_dev s"
  by (simp_all add: initialized_def initialized_upto_def)

lemma initialized_sized:
  fixes s :: "('g, 'a::linordered_field) state"
  assumes "sized p s"
  shows "sized p (initialized p s)"
proof -
  note d = sizedD[OF assms]
  have "has_size (Q (initialized p s)) (N p * N p)" "has_size (h (initialized p s)) (N p)"
    "has_size (V (initialized p s)) (2 * N p * N p)" "has_size (W (initialized p s)) (2 * N p)"
    using d by (simp_all add: initialized_def initialized_upto_def fold_length_preserved)
  then show ?thesis using assms by (simp add: sized_def)
qed

lemma initialize_ok:
  fixes s :: "('g, 'a::linordered_field) state"
  assumes "sized p s" "malloc_ok p (mallocs s)"
  shows "initialize p s = Inr (initialized p s)"
  by (simp add: initialize_def init_matrices_ok[OF assms])

lemma prepared_sized:
  fixes p :: "('g, 'a::linordered_field) platform"
  shows "sized p (prepared p g)"
  unfolding prepared_def by (intro initialized_sized allocated_sized) simp

lemma main_run:
  fixes p :: "('g, 'a::linordered_field) platform"
  assumes "\<forall>k<10. malloc_ok p k" "int ((2 * N p) * (2 * N p)) \<le> INT_MAX"
  shows "main p g = and_then (part_C p (reduced p (prepared p g))) (\<lambda>s. Inr (0, s))"
proof -
  have 1: "allocations p (initial p g) = Inr (allocated p (initial p g))"
    using assms(1) by (intro allocations_ok) simp
  have 2: "initialize p (allocated p (initial p g)) = Inr (prepared p g)"
    unfolding prepared_def using assms(1) by (intro initialize_ok allocated_sized) simp_all
  have 3: "and_then (part_A p (prepared p g)) (part_B p) = Inr (reduced p (prepared p g))"
    unfolding reduced_def by (intro pipeline_ok prepared_sized assms(2))
  have 4: "and_then (part_A p (prepared p g)) (\<lambda>s. and_then (part_B p s) f)
           = and_then (and_then (part_A p (prepared p g)) (part_B p)) f" for f :: "('g, 'a) state \<Rightarrow> ('g, 'a) halt + int \<times> ('g, 'a) state"
    by (cases "part_A p (prepared p g)") simp_all
  show ?thesis
    unfolding main_def 1 and_then_Inr 2 4 3 ..
qed

lemma main_host_failure:
  fixes p :: "('g, 'a::linordered_field) platform"
  assumes "k < 9" "\<forall>j<k. malloc_ok p j" "\<not> malloc_ok p k"
  shows "\<exists>s'. main p g = Inl (Exit 305 s') \<and> out s' = [] \<and> rng s' = g
           \<and> err s' = [Text (''Allocation error: '' @ buffer_names ! k)]
           \<and> mallocs s' = k + 1 \<and> cudaMallocs s' = 0"
proof -
  obtain s' where "allocations p (initial p g) = Inl (Exit 305 s')" "out s' = []" "rng s' = g"
    "err s' = [Text (''Allocation error: '' @ buffer_names ! k)]" "mallocs s' = k + 1" "cudaMallocs s' = 0"
    using allocations_fail[of k p "initial p g"] assms by auto
  then show ?thesis by (auto simp: main_def)
qed

lemma reduced_fields [simp]:
  "mallocs (reduced p s) = mallocs s" "cudaMallocs (reduced p s) = cudaMallocs s"
  "rng (reduced p s) = rng s" "err (reduced p s) = err s"
  "V (reduced p s) = V s" "W (reduced p s) = W s" "h (reduced p s) = h s"
  by (simp_all add: reduced_def)

lemma prepared_fields [simp]:
  "mallocs (prepared p g) = 10" "cudaMallocs (prepared p g) = 0" "err (prepared p g) = []"
  "out (prepared p g) = []"
  by (simp_all add: prepared_def)

lemma main_device_failure:
  fixes p :: "('g, 'a::linordered_field) platform"
  assumes "\<forall>k<10. malloc_ok p k" "int ((2 * N p) * (2 * N p)) \<le> INT_MAX"
    and "d < 2" "\<forall>j<d. cudaMalloc_status p j = cudaSuccess" "cudaMalloc_status p d \<noteq> cudaSuccess"
  shows "\<exists>s'. main p g = Inl (Exit EXIT_FAILURE s') \<and> cudaMallocs s' = d + 1 \<and> mallocs s' = 10
           \<and> err s' = [] \<and> last (out s') = CudaError (cudaMalloc_status p d)"
proof -
  let ?s = "reduced p (prepared p g)"
  have c: "cudaMallocs ?s = 0" "mallocs ?s = 10" "err ?s = []" by simp_all
  consider "d = 0" | "d = 1" using assms(3) by linarith
  then show ?thesis
  proof cases
    case 1
    then have "cudaMalloc_status p (cudaMallocs ?s) \<noteq> cudaSuccess" using assms(5) c by simp
    from part_C_first_fails[OF this] show ?thesis
      unfolding main_run[OF assms(1,2)] using 1 c by simp
  next
    case 2
    then have "cudaMalloc_status p (cudaMallocs ?s) = cudaSuccess"
      "cudaMalloc_status p (Suc (cudaMallocs ?s)) \<noteq> cudaSuccess" using assms(4,5) c by simp_all
    from part_C_second_fails[OF this] show ?thesis
      unfolding main_run[OF assms(1,2)] using 2 c by simp
  qed
qed

lemma stages_ok:
  fixes p :: "('g, 'a::linordered_field) platform"
  assumes "sized p s" "int ((2 * N p) * (2 * N p)) \<le> INT_MAX"
  shows "part_A_solve p s = Inr (solved_z p s)"
    "part_A_assemble p (solved_z p s) = Inr (assembled_h p (solved_z p s))"
    "part_B_solve p (assembled_h p (solved_z p s)) = Inr (solved_Y p (assembled_h p (solved_z p s)))"
    "part_B_assemble p (solved_Y p (assembled_h p (solved_z p s))) = Inr (reduced p s)"
proof -
  note z = solved_z_sized[OF assms(1)]
  note d = sizedD[OF z]
  let ?s2 = "assembled_h p (solved_z p s)"
  show "part_A_solve p s = Inr (solved_z p s)" by (rule part_A_solve_ok[OF assms(1)])
  show "part_A_assemble p (solved_z p s) = Inr ?s2" by (rule part_A_assemble_ok[OF z])
  show "part_B_solve p ?s2 = Inr (solved_Y p ?s2)"
    using d small_enough[OF assms(2)] by (intro part_B_solve_ok) simp_all
  show "part_B_assemble p (solved_Y p ?s2) = Inr (reduced p s)"
    unfolding reduced_def using d assms(2) solved_Y_Y[of p ?s2]
    by (intro part_B_assemble_ok) simp_all
qed

lemma transposed_V_cong:
  "V s' = V s \<Longrightarrow> Y s' = Y s \<Longrightarrow> transposed_V p s' = transposed_V p s"
  by (simp add: transposed_V_def)

lemma solved_z_z:
  "z (solved_z p s) = Buf (overlay (snd (snd (snd (dgesv p LAPACK_COL_MAJOR (N p) 1 (cells (Q s)) (N p) (cells (h s)) (N p))))) (cells (h s)))"
  "Q_copy_1 (solved_z p s) = Buf (overlay (fst (snd (dgesv p LAPACK_COL_MAJOR (N p) 1 (cells (Q s)) (N p) (cells (h s)) (N p)))) (cells (Q s)))"
  "info (solved_z p s) = Some (fst (dgesv p LAPACK_COL_MAJOR (N p) 1 (cells (Q s)) (N p) (cells (h s)) (N p)))"
  "out (solved_z p s) = out s @ [status_line ''info2'' (fst (dgesv p LAPACK_COL_MAJOR (N p) 1 (cells (Q s)) (N p) (cells (h s)) (N p)))]"
  by (simp_all add: solved_z_def split: prod.splits)

lemma solved_Y_result:
  "Y (solved_Y p s) = Buf (overlay (snd (snd (snd (dgesv p LAPACK_COL_MAJOR (N p) (2 * N p) (cells (Q s)) (N p) (transposed_V p s) (N p))))) (transposed_V p s))"
  "Q (solved_Y p s) = Buf (overlay (fst (snd (dgesv p LAPACK_COL_MAJOR (N p) (2 * N p) (cells (Q s)) (N p) (transposed_V p s) (N p)))) (cells (Q s)))"
  "info (solved_Y p s) = Some (fst (dgesv p LAPACK_COL_MAJOR (N p) (2 * N p) (cells (Q s)) (N p) (transposed_V p s) (N p)))"
  "out (solved_Y p s) = out s @ [status_line ''info'' (fst (dgesv p LAPACK_COL_MAJOR (N p) (2 * N p) (cells (Q s)) (N p) (transposed_V p s) (N p)))]"
  by (simp_all add: solved_Y_def split: prod.splits)

lemma h_tilde_spec_nth:
  "i < 2 * n \<Longrightarrow> h_tilde_spec n w v x ! i
     = cell_add (w ! i) (cell_sum (map (\<lambda>j. cell_mul (v ! (i + j * (2 * n))) (x ! j)) [0..<n]))"
  by (simp add: h_tilde_spec_def)

lemma Q_tilde_spec_nth:
  assumes "i < 2 * n" "j < 2 * n"
  shows "Q_tilde_spec n v y ! (i + j * (2 * n))
     = cell_sum (map (\<lambda>l. cell_mul (v ! (i + l * (2 * n))) (y ! (l + j * n))) [0..<n])"
proof -
  have "i + j * (2 * n) < (2 * n) * (2 * n)" using assms by (rule col_index_less)
  then show ?thesis using assms by (simp add: Q_tilde_spec_def)
qed

lemma spec_lengths [simp]:
  "length (h_tilde_spec n w v x) = 2 * n" "length (Q_tilde_spec n v y) = (2 * n) * (2 * n)"
  by (simp_all add: h_tilde_spec_def Q_tilde_spec_def)

lemma scenario_sized: "sized (example_platform 2) (scenario\<lparr>Q := Buf [a, b, c, d]\<rparr>)"
  by (simp add: sized_def scenario_def example_platform_def initial_def)

lemma example_small: "int ((2 * N (example_platform 2)) * (2 * N (example_platform 2))) \<le> INT_MAX"
  by (simp add: example_platform_def INT_MAX_def)

lemma scenario_sized0: "sized (example_platform 2) scenario"
  by (simp add: sized_def scenario_def example_platform_def initial_def)

lemma reduced_parts:
  "h_tilde (reduced p s) = Buf (h_tilde_spec (N p) (cells (W s)) (cells (V s)) (cells (z (solved_z p s))))"
  "Q_tilde (reduced p s) = Buf (Q_tilde_spec (N p) (cells (V s)) (cells (Y (solved_Y p (assembled_h p (solved_z p s))))))"
  "z (reduced p s) = z (solved_z p s)" "Y (reduced p s) = Y (solved_Y p (assembled_h p (solved_z p s)))"
  by (simp_all add: reduced_def assembled_h_def)

lemma prepared_run:
  fixes p :: "('g, 'a::linordered_field) platform"
  assumes "\<forall>k<10. malloc_ok p k"
  shows "and_then (allocations p (initial p g)) (initialize p) = Inr (prepared p g)"
proof -
  have 1: "allocations p (initial p g) = Inr (allocated p (initial p g))"
    using assms by (intro allocations_ok) simp
  have 2: "initialize p (allocated p (initial p g)) = Inr (prepared p g)"
    unfolding prepared_def using assms by (intro initialize_ok allocated_sized) simp_all
  show ?thesis unfolding 1 and_then_Inr by (rule 2)
qed

lemma prepared_untouched [simp]:
  "Y (prepared p g) = Buf (replicate (2 * N p * N p) None)"
  "h_tilde (prepared p g) = Buf (replicate (2 * N p) None)"
  "Q_tilde (prepared p g) = Buf (replicate ((2 * N p) * (2 * N p)) None)"
  by (simp_all add: prepared_def)

lemma main_success:
  fixes p :: "('g, 'a::linordered_field) platform"
  assumes "\<forall>k<10. malloc_ok p k" "int ((2 * N p) * (2 * N p)) \<le> INT_MAX"
    and "\<forall>d<2. cudaMalloc_status p d = cudaSuccess"
  shows "main p g = Inr (0, (reduced p (prepared p g))\<lparr>cudaMallocs := 2,
            Q_tilde_dev := DevBuf ((2 * N p) * (2 * N p)), h_tilde_dev := DevBuf (2 * N p)\<rparr>)"
proof -
  let ?s = "reduced p (prepared p g)"
  have c: "cudaMallocs ?s = 0" by simp
  have "cudaMalloc_status p (cudaMallocs ?s) = cudaSuccess" "cudaMalloc_status p (Suc (cudaMallocs ?s)) = cudaSuccess"
    using assms(3) c by simp_all
  from part_C_ok[OF this] show ?thesis
    unfolding main_run[OF assms(1,2)] using c by (simp add: numeral_2_eq_2)
qed

lemma main_returns_zero:
  fixes p :: "('g, 'a::linordered_field) platform"
  shows "main p g = Inr (r, s') \<Longrightarrow> r = 0"
  by (auto simp: main_def and_then_def split: sum.splits)

lemma reduced_info:
  "info (reduced p s) = info (solved_Y p (assembled_h p (solved_z p s)))"
  "out (reduced p s) = out (solved_Y p (assembled_h p (solved_z p s)))
      @ printed_matrix ''Qtilde'' (2 * N p) (2 * N p) (2 * N p) (cells (Q_tilde (reduced p s)))"
  by (simp_all add: reduced_def assembled_Q_def)

section \<open>The constraint matrix after initialization\<close>












text \<open>
  The scratch buffer \<open>Q_init\<close> of \<^verbatim>\<open>init_matrices\<close> (line 59) is written at line 64 without a
  check of what \<^verbatim>\<open>malloc\<close> returned.
\<close>

lemma init_matrices_scratch_null:
  fixes s :: "('g, 'a::linordered_field) state"
  assumes "Q s \<noteq> NULL" "h s \<noteq> NULL" "V s \<noteq> NULL" "W s \<noteq> NULL"
    and "\<not> malloc_ok p (mallocs s)" "0 < N p"
  shows "init_matrices p s = Inl NullPointer"
proof -
  let ?s = "s\<lparr>mallocs := Suc (mallocs s), rng := srand p 1001\<rparr>"
  have m: "malloc p (N p * N p) s = (NULL, s\<lparr>mallocs := Suc (mallocs s)\<rparr>)"
    using assms(5) by (simp add: malloc_def)
  have b: "init_Q_init p 0 (NULL, ?s) = Inl NullPointer"
    by (simp add: init_Q_init_def store_def deref_def split: prod.splits)
  have "for_loop (N p * N p) (init_Q_init p) (NULL, ?s) = Inl NullPointer"
    using b assms(6) by (intro for_loop_fault) simp_all
  then show ?thesis using assms(1-4) m by (simp add: init_matrices_def)
qed

lemma allocated_nonnull:
  "Q (allocated p s) \<noteq> NULL" "h (allocated p s) \<noteq> NULL" "V (allocated p s) \<noteq> NULL"
  "W (allocated p s) \<noteq> NULL"
  by (simp_all add: allocated_def)

section \<open>The claims\<close>

text \<open>
  Claim C5. For a source buffer holding an \<open>R\<close>-by-\<open>C\<close> matrix row by row and
  destination buffers of at least \<open>R * C\<close> elements (with \<open>R * C\<close> in the range of
  \<^verbatim>\<open>int\<close>, as the index arithmetic of the function needs), \<open>copy_as_transpose\<close> returns
  without a fault; element \<open>(j, i)\<close> of the result, read as a \<open>C\<close>-by-\<open>R\<close> matrix,
  is element \<open>(i, j)\<close> of the source; the cells of the destination beyond the matrix are
  left as they were; and transposing the result back gives the source again, element by
  element.
\<close>

theorem copy_as_transpose_involution:
  assumes "R * C \<le> length source" "R * C \<le> length dest" "R * C \<le> length back"
    and "int (R * C) \<le> INT_MAX"
  shows "\<exists>d b. copy_as_transpose dest source (int R) (int C) = Inr d
           \<and> length d = length dest
           \<and> (\<forall>i<R. \<forall>j<C. d ! (j * R + i) = source ! (i * C + j))
           \<and> (\<forall>k<length dest. R * C \<le> k \<longrightarrow> d ! k = dest ! k)
           \<and> copy_as_transpose back d (int C) (int R) = Inr b
           \<and> length b = length back
           \<and> (\<forall>k<R * C. b ! k = source ! k)"
proof -
  let ?d = "transposed_upto source R C R 0 dest"
  let ?b = "transposed_upto ?d C R C 0 back"
  have 1: "copy_as_transpose dest source (int R) (int C) = Inr ?d"
    using assms by (intro copy_as_transpose_result)
  have 2: "copy_as_transpose back ?d (int C) (int R) = Inr ?b"
    using assms by (intro copy_as_transpose_result) (simp_all add: mult.commute)
  have 3: "\<forall>i<R. \<forall>j<C. ?d ! (j * R + i) = source ! (i * C + j)"
    using assms(2) by (simp add: transposed_upto_nth)
  have 4: "\<forall>k<length dest. R * C \<le> k \<longrightarrow> ?d ! k = dest ! k"
    by (simp add: transposed_upto_rest)
  have 5: "\<forall>k<R * C. ?b ! k = source ! k"
  proof (intro allI impI)
    fix k assume k: "k < R * C"
    then have C: "0 < C" by (cases C) simp_all
    have i: "k div C < R" using k by (simp add: less_mult_imp_div_less)
    have j: "k mod C < C" using C by simp
    have "?b ! k = ?b ! ((k div C) * C + k mod C)" by simp
    also have "\<dots> = ?d ! ((k mod C) * R + k div C)"
      using j i assms(3) by (intro transposed_upto_nth) (simp_all add: mult.commute)
    also have "\<dots> = source ! ((k div C) * C + k mod C)"
      using i j assms(2) by (intro transposed_upto_nth) simp_all
    finally show "?b ! k = source ! k" by simp
  qed
  show ?thesis using 1 2 3 4 5 by simp
qed

theorem copy_as_transpose_involution_witness:
  "2 * 3 \<le> length [1, 2, 3, 4, 5, 6 :: int] \<and> 2 * 3 \<le> length [0, 0, 0, 0, 0, 0, 9 :: int]
   \<and> 2 * 3 \<le> length [7, 7, 7, 7, 7, 7 :: int] \<and> int (2 * 3) \<le> INT_MAX
   \<and> copy_as_transpose [0, 0, 0, 0, 0, 0, 9] [1, 2, 3, 4, 5, 6 :: int] 2 3 = Inr [1, 4, 2, 5, 3, 6, 9]
   \<and> copy_as_transpose [7, 7, 7, 7, 7, 7] [1, 4, 2, 5, 3, 6, 9 :: int] 3 2 = Inr [1, 2, 3, 4, 5, 6]
   \<and> (\<exists>d b. copy_as_transpose [0, 0, 0, 0, 0, 0, 9] [1, 2, 3, 4, 5, 6 :: int] (int 2) (int 3) = Inr d
         \<and> length d = length [0, 0, 0, 0, 0, 0, 9 :: int]
         \<and> (\<forall>i<2. \<forall>j<3. d ! (j * 2 + i) = [1, 2, 3, 4, 5, 6] ! (i * 3 + j))
         \<and> (\<forall>k<length [0, 0, 0, 0, 0, 0, 9 :: int]. 2 * 3 \<le> k \<longrightarrow> d ! k = [0, 0, 0, 0, 0, 0, 9] ! k)
         \<and> copy_as_transpose [7, 7, 7, 7, 7, 7] d (int 3) (int 2) = Inr b
         \<and> length b = length [7, 7, 7, 7, 7, 7 :: int]
         \<and> (\<forall>k<2 * 3. b ! k = [1, 2, 3, 4, 5, 6] ! k))"
proof -
  have e1: "copy_as_transpose [0, 0, 0, 0, 0, 0, 9] [1, 2, 3, 4, 5, 6 :: int] 2 3 = Inr [1, 4, 2, 5, 3, 6, 9]"
    by (simp add: copy_as_transpose_def transpose_assign_def numeral_2_eq_2 numeral_3_eq_3
        c_int_def INT_MAX_def rd_def wr_def)
  have e2: "copy_as_transpose [7, 7, 7, 7, 7, 7] [1, 4, 2, 5, 3, 6, 9 :: int] 3 2 = Inr [1, 2, 3, 4, 5, 6]"
    by (simp add: copy_as_transpose_def transpose_assign_def numeral_2_eq_2 numeral_3_eq_3
        c_int_def INT_MAX_def rd_def wr_def)
  have i: "int (2 * 3) \<le> INT_MAX" by (simp add: INT_MAX_def)
  show ?thesis
    using e1 e2 i
      copy_as_transpose_involution [of 2 3 "[1, 2, 3, 4, 5, 6 :: int]" "[0, 0, 0, 0, 0, 0, 9]" "[7, 7, 7, 7, 7, 7]"]
    by simp
qed

text \<open>
  The nine host buffers \<open>Q\<close>, \<open>Q_copy_1\<close>, \<open>h\<close>, \<open>V\<close>, \<open>W\<close>, \<open>Y\<close>, \<open>z\<close>, \<open>Q_tilde\<close>,
  \<open>h_tilde\<close> are the first nine \<^verbatim>\<open>malloc\<close> calls of \<^verbatim>\<open>main\<close>, each checked by
  \<^verbatim>\<open>HANDLE_ALLOCATION_ERROR\<close>. Whenever one of them fails, \<^verbatim>\<open>main\<close> exits with code 305, which is
  neither \<^verbatim>\<open>EXIT_FAILURE\<close> nor \<^verbatim>\<open>EXIT_SUCCESS\<close>. It does so at the first failing allocation
  \<open>j\<close>: the message on the standard error names that buffer, no later allocation is made,
  nothing is printed on the standard output and no device allocation is attempted.
\<close>

theorem host_allocation_failure_exits_305:
  fixes p :: "('g, 'a::linordered_field) platform"
  assumes "k < 9" "\<not> malloc_ok p k"
  shows "\<exists>s' j. j \<le> k \<and> main p g = Inl (Exit 305 s') \<and> 305 \<noteq> EXIT_FAILURE \<and> 305 \<noteq> EXIT_SUCCESS
           \<and> err s' = [Text (''Allocation error: '' @ buffer_names ! j)]
           \<and> out s' = [] \<and> mallocs s' = j + 1 \<and> cudaMallocs s' = 0"
proof -
  define j where "j = (LEAST j. \<not> malloc_ok p j)"
  have j: "\<not> malloc_ok p j" unfolding j_def using assms(2) by (rule LeastI)
  have jk: "j \<le> k" unfolding j_def using assms(2) by (rule Least_le)
  have before: "\<forall>i<j. malloc_ok p i" unfolding j_def using not_less_Least by blast
  have "j < 9" using jk assms(1) by simp
  from main_host_failure[OF this before j, of g] jk show ?thesis
    by (auto simp: EXIT_FAILURE_def EXIT_SUCCESS_def)
qed

theorem host_allocation_failure_exits_305_witness:
  "(3::nat) < 9 \<and> \<not> malloc_ok ((example_platform 2)\<lparr>malloc_ok := (\<lambda>k. k \<noteq> 3)\<rparr>) 3
   \<and> main ((example_platform 2)\<lparr>malloc_ok := (\<lambda>k. k \<noteq> 3)\<rparr>) 1 =
       Inl (Exit 305
         \<lparr>rng = 1, out = [], err = [Text ''Allocation error: V''], mallocs = 4, cudaMallocs = 0,
          Q = Buf [None, None, None, None], Q_copy_1 = Buf [None, None, None, None],
          h = Buf [None, None], V = NULL, W = NULL, Y = NULL, z = NULL, Q_tilde = NULL,
          h_tilde = NULL, Q_tilde_dev = DevNull, h_tilde_dev = DevNull,
          ipiv = [None, None], info = None\<rparr>)
   \<and> (\<exists>s' j. j \<le> 3 \<and> main ((example_platform 2)\<lparr>malloc_ok := (\<lambda>k. k \<noteq> 3)\<rparr>) 1 = Inl (Exit 305 s')
         \<and> 305 \<noteq> EXIT_FAILURE \<and> 305 \<noteq> EXIT_SUCCESS
         \<and> err s' = [Text (''Allocation error: '' @ buffer_names ! j)]
         \<and> out s' = [] \<and> mallocs s' = j + 1 \<and> cudaMallocs s' = 0)"
proof -
  have e: "main ((example_platform 2)\<lparr>malloc_ok := (\<lambda>k. k \<noteq> 3)\<rparr>) 1 =
       Inl (Exit 305
         \<lparr>rng = 1, out = [], err = [Text ''Allocation error: V''], mallocs = 4, cudaMallocs = 0,
          Q = Buf [None, None, None, None], Q_copy_1 = Buf [None, None, None, None],
          h = Buf [None, None], V = NULL, W = NULL, Y = NULL, z = NULL, Q_tilde = NULL,
          h_tilde = NULL, Q_tilde_dev = DevNull, h_tilde_dev = DevNull,
          ipiv = [None, None], info = None\<rparr>)"
    by (simp add: main_def allocations_def allocate_def malloc_def HANDLE_ALLOCATION_ERROR_def
        example_platform_def initial_def numeral_2_eq_2)
  have h: "\<not> malloc_ok ((example_platform 2)\<lparr>malloc_ok := (\<lambda>k. k \<noteq> 3)\<rparr>) 3" by simp
  show ?thesis
    using host_allocation_failure_exits_305[of 3 "(example_platform 2)\<lparr>malloc_ok := (\<lambda>k. k \<noteq> 3)\<rparr>" 1, OF _ h] e h
    by simp
qed

text \<open>
  Claim C6 holds for these nine buffers, but not every host allocation is checked: the
  tenth \<^verbatim>\<open>malloc\<close> call of a run is the one for the scratch buffer \<open>Q_init\<close> in
  \<^verbatim>\<open>init_matrices\<close>. When the nine allocations of \<^verbatim>\<open>main\<close> succeed and this one fails (with
  \<open>N > 0\<close>), the run does not exit with 305: the first assignment \<^verbatim>\<open>Q_init[0] = ...\<close> writes
  through the null pointer, which is undefined behaviour.
\<close>

theorem unchecked_scratch_allocation:
  fixes p :: "('g, 'a::linordered_field) platform"
  assumes "0 < N p" "list_all (malloc_ok p) [0..<9]" "\<not> malloc_ok p 9"
  shows "main p g = Inl (Undefined NullPointer)"
proof -
  have a: "\<forall>k<9. malloc_ok p (mallocs (initial p g) + k)"
    using assms(2) by (simp add: list_all_upt initial_def)
  have 1: "allocations p (initial p g) = Inr (allocated p (initial p g))"
    using a by (rule allocations_ok)
  have "mallocs (allocated p (initial p g)) = 9" by (simp add: initial_def)
  then have "init_matrices p (allocated p (initial p g)) = Inl NullPointer"
    using assms(1,3) by (intro init_matrices_scratch_null allocated_nonnull) simp_all
  then have 2: "initialize p (allocated p (initial p g)) = Inl (Undefined NullPointer)"
    by (simp add: initialize_def defined_def)
  show ?thesis by (simp add: main_def 1 2)
qed

theorem unchecked_scratch_allocation_witness:
  "0 < N ((example_platform 2)\<lparr>malloc_ok := (\<lambda>k. k \<noteq> 9)\<rparr>)
   \<and> list_all (malloc_ok ((example_platform 2)\<lparr>malloc_ok := (\<lambda>k. k \<noteq> 9)\<rparr>)) [0..<9]
   \<and> \<not> malloc_ok ((example_platform 2)\<lparr>malloc_ok := (\<lambda>k. k \<noteq> 9)\<rparr>) 9
   \<and> main ((example_platform 2)\<lparr>malloc_ok := (\<lambda>k. k \<noteq> 9)\<rparr>) 1 = Inl (Undefined NullPointer)"
proof -
  let ?p = "(example_platform 2)\<lparr>malloc_ok := (\<lambda>k. k \<noteq> 9)\<rparr>"
  have a: "0 < N ?p" by (simp add: example_platform_def)
  have b: "list_all (malloc_ok ?p) [0..<9]" by (simp add: list_all_upt)
  have c: "\<not> malloc_ok ?p 9" by simp
  show ?thesis using a b c unchecked_scratch_allocation[of ?p 1] by blast
qed

text \<open>
  Claim C7, as stated, fails for device buffers: when \<^verbatim>\<open>cudaMalloc\<close> fails, \<^verbatim>\<open>HandleError\<close>
  exits with \<^verbatim>\<open>EXIT_FAILURE\<close>, the standard failure code, not with a code of its own. Here
  every \<^verbatim>\<open>cudaMalloc\<close> call returns status 2 (out of memory) on the example platform with
  \<open>N = 1\<close>.
\<close>

theorem device_allocation_failure_counterexample:
  "(case main ((example_platform 1)\<lparr>cudaMalloc_status := (\<lambda>k. 2)\<rparr>) 1 of
      Inl (Exit code s) \<Rightarrow> code = EXIT_FAILURE \<and> code \<noteq> 305 \<and> last (out s) = CudaError 2
    | Inl (Undefined f) \<Rightarrow> False
    | Inr r \<Rightarrow> False)"
proof -
  let ?p = "(example_platform 1)\<lparr>cudaMalloc_status := (\<lambda>k. 2)\<rparr>"
  have "\<exists>s'. main ?p 1 = Inl (Exit EXIT_FAILURE s') \<and> cudaMallocs s' = 0 + 1 \<and> mallocs s' = 10
           \<and> err s' = [] \<and> last (out s') = CudaError (cudaMalloc_status ?p 0)"
    by (rule main_device_failure) (simp_all add: example_platform_def INT_MAX_def cudaSuccess_def)
  then show ?thesis by (auto simp: EXIT_FAILURE_def)
qed

text \<open>
  Claim C7, amended. An allocation failure is fatal and is not retried. When a host
  allocation fails (the \<open>k\<close>-th, the earlier ones having succeeded), \<^verbatim>\<open>main\<close> exits with
  code 305 right after that \<^verbatim>\<open>malloc\<close> call. When the host allocations succeed and a device
  allocation fails (the \<open>d\<close>-th), \<^verbatim>\<open>main\<close> exits with \<^verbatim>\<open>EXIT_FAILURE\<close>, the standard failure
  code, right after that \<^verbatim>\<open>cudaMalloc\<close> call, having printed the error. The two codes
  differ.
\<close>

theorem allocation_failure_is_fatal:
  fixes p :: "('g, 'a::linordered_field) platform"
  shows "(k < 9 \<and> list_all (malloc_ok p) [0..<k] \<and> \<not> malloc_ok p k \<longrightarrow>
           (\<exists>s'. main p g = Inl (Exit 305 s') \<and> mallocs s' = k + 1 \<and> cudaMallocs s' = 0 \<and> out s' = []))
       \<and> (list_all (malloc_ok p) [0..<10] \<and> int ((2 * N p) * (2 * N p)) \<le> INT_MAX \<and> d < 2
            \<and> list_all (\<lambda>j. cudaMalloc_status p j = cudaSuccess) [0..<d]
            \<and> cudaMalloc_status p d \<noteq> cudaSuccess \<longrightarrow>
           (\<exists>s'. main p g = Inl (Exit EXIT_FAILURE s') \<and> mallocs s' = 10 \<and> cudaMallocs s' = d + 1
                 \<and> last (out s') = CudaError (cudaMalloc_status p d)))
       \<and> 305 \<noteq> EXIT_FAILURE"
proof (intro conjI impI)
  assume "k < 9 \<and> list_all (malloc_ok p) [0..<k] \<and> \<not> malloc_ok p k"
  then show "\<exists>s'. main p g = Inl (Exit 305 s') \<and> mallocs s' = k + 1 \<and> cudaMallocs s' = 0 \<and> out s' = []"
    using main_host_failure[of k p g] by (auto simp: list_all_upt)
next
  assume "list_all (malloc_ok p) [0..<10] \<and> int ((2 * N p) * (2 * N p)) \<le> INT_MAX \<and> d < 2
            \<and> list_all (\<lambda>j. cudaMalloc_status p j = cudaSuccess) [0..<d]
            \<and> cudaMalloc_status p d \<noteq> cudaSuccess"
  then show "\<exists>s'. main p g = Inl (Exit EXIT_FAILURE s') \<and> mallocs s' = 10 \<and> cudaMallocs s' = d + 1
                 \<and> last (out s') = CudaError (cudaMalloc_status p d)"
    using main_device_failure[of p d g] by (auto simp: list_all_upt)
next
  show "305 \<noteq> EXIT_FAILURE" by (simp add: EXIT_FAILURE_def)
qed

theorem allocation_failure_is_fatal_witness:
  "(6::nat) < 9 \<and> list_all (malloc_ok ((example_platform 2)\<lparr>malloc_ok := (\<lambda>k. k \<noteq> 6)\<rparr>)) [0..<6]
   \<and> \<not> malloc_ok ((example_platform 2)\<lparr>malloc_ok := (\<lambda>k. k \<noteq> 6)\<rparr>) 6
   \<and> (\<exists>s'. main ((example_platform 2)\<lparr>malloc_ok := (\<lambda>k. k \<noteq> 6)\<rparr>) 1 = Inl (Exit 305 s')
          \<and> mallocs s' = 6 + 1 \<and> cudaMallocs s' = 0 \<and> out s' = [])
   \<and> list_all (malloc_ok ((example_platform 2)\<lparr>cudaMalloc_status := (\<lambda>k. if k = 1 then 2 else 0)\<rparr>)) [0..<10]
   \<and> int ((2 * N ((example_platform 2)\<lparr>cudaMalloc_status := (\<lambda>k. if k = 1 then 2 else 0)\<rparr>))
             * (2 * N ((example_platform 2)\<lparr>cudaMalloc_status := (\<lambda>k. if k = 1 then 2 else 0)\<rparr>))) \<le> INT_MAX
   \<and> (1::nat) < 2
   \<and> list_all (\<lambda>j. cudaMalloc_status ((example_platform 2)\<lparr>cudaMalloc_status := (\<lambda>k. if k = 1 then 2 else 0)\<rparr>) j = cudaSuccess) [0..<1]
   \<and> cudaMalloc_status ((example_platform 2)\<lparr>cudaMalloc_status := (\<lambda>k. if k = 1 then 2 else 0)\<rparr>) 1 \<noteq> cudaSuccess
   \<and> (\<exists>s'. main ((example_platform 2)\<lparr>cudaMalloc_status := (\<lambda>k. if k = 1 then 2 else 0)\<rparr>) 1 = Inl (Exit EXIT_FAILURE s')
          \<and> mallocs s' = 10 \<and> cudaMallocs s' = 1 + 1
          \<and> last (out s') = CudaError (cudaMalloc_status ((example_platform 2)\<lparr>cudaMalloc_status := (\<lambda>k. if k = 1 then 2 else 0)\<rparr>) 1))"
proof -
  let ?p = "(example_platform 2)\<lparr>malloc_ok := (\<lambda>k. k \<noteq> 6)\<rparr>"
  let ?q = "(example_platform 2)\<lparr>cudaMalloc_status := (\<lambda>k. if k = 1 then 2 else 0)\<rparr>"
  have a: "(6::nat) < 9 \<and> list_all (malloc_ok ?p) [0..<6] \<and> \<not> malloc_ok ?p 6"
    by (simp add: list_all_upt)
  have b: "list_all (malloc_ok ?q) [0..<10] \<and> int ((2 * N ?q) * (2 * N ?q)) \<le> INT_MAX \<and> (1::nat) < 2
      \<and> list_all (\<lambda>j. cudaMalloc_status ?q j = cudaSuccess) [0..<1] \<and> cudaMalloc_status ?q 1 \<noteq> cudaSuccess"
    by (simp add: list_all_upt example_platform_def INT_MAX_def cudaSuccess_def)
  show ?thesis
    using a b allocation_failure_is_fatal[of 6 ?p 1 1] allocation_failure_is_fatal[of 6 ?q 1 1]
    by blast
qed

text \<open>
  Claim C3. On every well sized state, whatever the solver does with the buffers it is
  given: the first solve (for \<open>h\<close>) gets the contents of \<open>Q\<close> in the copy \<open>Q_copy_1\<close> and
  leaves its factors there, while \<open>Q\<close> itself is after that solve, and still after the
  assembly of \<open>h_tilde\<close>, exactly what it was before; the second solve (for the transpose
  of \<open>V\<close>) then gets these original contents of \<open>Q\<close> as its matrix operand and leaves
  in \<open>Q\<close> whatever the solver makes of them.
\<close>

theorem Q_intact_until_second_solve:
  fixes p :: "('g, 'a::linordered_field) platform"
  assumes "sized p s" "int ((2 * N p) * (2 * N p)) \<le> INT_MAX"
  shows "\<exists>s1 s2 s3. part_A_solve p s = Inr s1
           \<and> Q s1 = Q s
           \<and> Q_copy_1 s1 = Buf (overlay (fst (snd (dgesv p LAPACK_COL_MAJOR (N p) 1 (cells (Q s)) (N p) (cells (h s)) (N p)))) (cells (Q s)))
           \<and> part_A_assemble p s1 = Inr s2
           \<and> Q s2 = Q s
           \<and> part_B_solve p s2 = Inr s3
           \<and> Q s3 = Buf (overlay (fst (snd (dgesv p LAPACK_COL_MAJOR (N p) (2 * N p) (cells (Q s)) (N p) (transposed_V p s) (N p)))) (cells (Q s)))"
proof -
  let ?s1 = "solved_z p s"
  let ?s2 = "assembled_h p ?s1"
  let ?s3 = "solved_Y p ?s2"
  note st = stages_ok[OF assms]
  have t: "transposed_V p ?s2 = transposed_V p s" by (rule transposed_V_cong) simp_all
  have "Q ?s3 = Buf (overlay (fst (snd (dgesv p LAPACK_COL_MAJOR (N p) (2 * N p) (cells (Q s)) (N p) (transposed_V p s) (N p)))) (cells (Q s)))"
    using solved_Y_result(2)[of p ?s2] by (simp add: t)
  then show ?thesis using st(1,2,3) solved_z_z(2)[of p s] by simp
qed


theorem Q_intact_until_second_solve_witness:
  "sized (example_platform 2) (scenario\<lparr>Q := Buf [Some 4, Some 2, Some 2, Some 3]\<rparr>)
   \<and> int ((2 * N (example_platform 2)) * (2 * N (example_platform 2))) \<le> INT_MAX
   \<and> (case part_A_solve (example_platform 2) (scenario\<lparr>Q := Buf [Some 4, Some 2, Some 2, Some 3]\<rparr>) of
         Inl e \<Rightarrow> False
       | Inr s1 \<Rightarrow> Q s1 = Buf [Some 4, Some 2, Some 2, Some 3]
           \<and> Q_copy_1 s1 = Buf [Some 4, Some (1 / 2), Some 2, Some 2]
           \<and> (case and_then (part_A_assemble (example_platform 2) s1) (part_B_solve (example_platform 2)) of
                 Inl e \<Rightarrow> False
               | Inr s3 \<Rightarrow> Q s3 = Buf [Some 4, Some (1 / 2), Some 2, Some 2]))
   \<and> (\<exists>s1 s2 s3. part_A_solve (example_platform 2) (scenario\<lparr>Q := Buf [Some 4, Some 2, Some 2, Some 3]\<rparr>) = Inr s1
           \<and> Q s1 = Q (scenario\<lparr>Q := Buf [Some 4, Some 2, Some 2, Some 3]\<rparr>)
           \<and> Q_copy_1 s1 = Buf (overlay (fst (snd (dgesv (example_platform 2) LAPACK_COL_MAJOR (N (example_platform 2)) 1
                  (cells (Q (scenario\<lparr>Q := Buf [Some 4, Some 2, Some 2, Some 3]\<rparr>))) (N (example_platform 2))
                  (cells (h (scenario\<lparr>Q := Buf [Some 4, Some 2, Some 2, Some 3]\<rparr>))) (N (example_platform 2)))))
                (cells (Q (scenario\<lparr>Q := Buf [Some 4, Some 2, Some 2, Some 3]\<rparr>))))
           \<and> part_A_assemble (example_platform 2) s1 = Inr s2
           \<and> Q s2 = Q (scenario\<lparr>Q := Buf [Some 4, Some 2, Some 2, Some 3]\<rparr>)
           \<and> part_B_solve (example_platform 2) s2 = Inr s3
           \<and> Q s3 = Buf (overlay (fst (snd (dgesv (example_platform 2) LAPACK_COL_MAJOR (N (example_platform 2)) (2 * N (example_platform 2))
                  (cells (Q (scenario\<lparr>Q := Buf [Some 4, Some 2, Some 2, Some 3]\<rparr>))) (N (example_platform 2))
                  (transposed_V (example_platform 2) (scenario\<lparr>Q := Buf [Some 4, Some 2, Some 2, Some 3]\<rparr>)) (N (example_platform 2)))))
                (cells (Q (scenario\<lparr>Q := Buf [Some 4, Some 2, Some 2, Some 3]\<rparr>)))))"
proof -
  let ?p = "example_platform 2"
  let ?s = "scenario\<lparr>Q := Buf [Some 4, Some 2, Some 2, Some 3]\<rparr>"
  have e: "(case part_A_solve ?p ?s of
         Inl e \<Rightarrow> False
       | Inr s1 \<Rightarrow> Q s1 = Buf [Some 4, Some 2, Some 2, Some 3]
           \<and> Q_copy_1 s1 = Buf [Some 4, Some (1 / 2), Some 2, Some 2]
           \<and> (case and_then (part_A_assemble ?p s1) (part_B_solve ?p) of
                 Inl e \<Rightarrow> False
               | Inr s3 \<Rightarrow> Q s3 = Buf [Some 4, Some (1 / 2), Some 2, Some 2]))"
    by code_simp
  show ?thesis
    using Q_intact_until_second_solve[OF scenario_sized example_small, of "Some 4" "Some 2" "Some 2" "Some 3"]
      scenario_sized[of "Some 4" "Some 2" "Some 2" "Some 3"] example_small e
    by blast
qed

text \<open>
  Claim C1. On every well sized state (\<open>M = 2 N\<close>, with \<open>M * M\<close> in the range of \<^verbatim>\<open>int\<close>)
  the four stages of the pipeline return without a fault. \<open>z\<close> and \<open>Y\<close> are what the
  solver leaves in the two right-hand side buffers, and the assembly does not change
  them, nor \<open>V\<close>, nor \<open>W\<close>. After the assembly \<open>h_tilde\<close> has \<open>M\<close> cells and cell \<open>i\<close> is
  \<open>W\<^sub>i + \<Sum>\<^sub>j V\<^sub>i\<^sub>j z\<^sub>j\<close>; \<open>Q_tilde\<close> has \<open>M * M\<close> cells and cell \<open>(i, j)\<close> is
  \<open>\<Sum>\<^sub>l V\<^sub>i\<^sub>l Y\<^sub>l\<^sub>j\<close>, with \<open>V\<close> an \<open>M\<close>-by-\<open>N\<close> and \<open>Y\<close> an \<open>N\<close>-by-\<open>M\<close> matrix stored column
  by column. Sums and products are exact; a sum over an indeterminate cell is
  indeterminate.
\<close>

theorem schur_complement_assembly:
  fixes p :: "('g, 'a::linordered_field) platform"
  assumes "sized p s" "int ((2 * N p) * (2 * N p)) \<le> INT_MAX"
  shows "\<exists>s1 s2 s3 s4. part_A_solve p s = Inr s1 \<and> part_A_assemble p s1 = Inr s2
           \<and> part_B_solve p s2 = Inr s3 \<and> part_B_assemble p s3 = Inr s4
           \<and> z s1 = Buf (overlay (snd (snd (snd (dgesv p LAPACK_COL_MAJOR (N p) 1 (cells (Q s)) (N p) (cells (h s)) (N p))))) (cells (h s)))
           \<and> Y s3 = Buf (overlay (snd (snd (snd (dgesv p LAPACK_COL_MAJOR (N p) (2 * N p) (cells (Q s)) (N p) (transposed_V p s) (N p))))) (transposed_V p s))
           \<and> z s4 = z s1 \<and> Y s4 = Y s3 \<and> V s4 = V s \<and> W s4 = W s \<and> W s2 = W s
           \<and> h_tilde s4 = h_tilde s2
           \<and> length (cells (h_tilde s4)) = 2 * N p
           \<and> length (cells (Q_tilde s4)) = (2 * N p) * (2 * N p)
           \<and> (\<forall>i<2 * N p. cells (h_tilde s2) ! i =
                 cell_add (cells (W s) ! i)
                   (cell_sum (map (\<lambda>j. cell_mul (cells (V s) ! (i + j * (2 * N p))) (cells (z s1) ! j)) [0..<N p])))
           \<and> (\<forall>i<2 * N p. \<forall>j<2 * N p. cells (Q_tilde s4) ! (i + j * (2 * N p)) =
                 cell_sum (map (\<lambda>l. cell_mul (cells (V s) ! (i + l * (2 * N p))) (cells (Y s3) ! (l + j * N p))) [0..<N p]))"
proof -
  let ?s1 = "solved_z p s"
  let ?s2 = "assembled_h p ?s1"
  let ?s3 = "solved_Y p ?s2"
  let ?s4 = "reduced p s"
  note st = stages_ok[OF assms]
  have t: "transposed_V p ?s2 = transposed_V p s" by (rule transposed_V_cong) simp_all
  have y: "Y ?s3 = Buf (overlay (snd (snd (snd (dgesv p LAPACK_COL_MAJOR (N p) (2 * N p) (cells (Q s)) (N p) (transposed_V p s) (N p))))) (transposed_V p s))"
    using solved_Y_result(1)[of p ?s2] by (simp add: t)
  have h2: "h_tilde ?s2 = Buf (h_tilde_spec (N p) (cells (W s)) (cells (V s)) (cells (z ?s1)))"
    by (simp add: assembled_h_def)
  have h4: "h_tilde ?s4 = h_tilde ?s2" unfolding h2 by (rule reduced_parts(1))
  have q4: "Q_tilde ?s4 = Buf (Q_tilde_spec (N p) (cells (V s)) (cells (Y ?s3)))" by (rule reduced_parts(2))
  have a: "\<forall>i<2 * N p. cells (h_tilde ?s2) ! i =
                 cell_add (cells (W s) ! i)
                   (cell_sum (map (\<lambda>j. cell_mul (cells (V s) ! (i + j * (2 * N p))) (cells (z ?s1) ! j)) [0..<N p]))"
    unfolding h2 cells_Buf by (simp add: h_tilde_spec_nth)
  have b: "\<forall>i<2 * N p. \<forall>j<2 * N p. cells (Q_tilde ?s4) ! (i + j * (2 * N p)) =
                 cell_sum (map (\<lambda>l. cell_mul (cells (V s) ! (i + l * (2 * N p))) (cells (Y ?s3) ! (l + j * N p))) [0..<N p])"
    unfolding q4 cells_Buf by (simp add: Q_tilde_spec_nth)
  have l: "length (cells (h_tilde ?s4)) = 2 * N p" "length (cells (Q_tilde ?s4)) = (2 * N p) * (2 * N p)"
    unfolding h4 h2 q4 cells_Buf by simp_all
  have f: "z ?s4 = z ?s1" "Y ?s4 = Y ?s3" "V ?s4 = V s" "W ?s4 = W s" "W ?s2 = W s"
    by (simp_all add: reduced_parts)
  show ?thesis
    using st solved_z_z(1)[of p s] y f h4 l a b by blast
qed

theorem schur_complement_assembly_witness:
  "sized (example_platform 2) scenario
   \<and> int ((2 * N (example_platform 2)) * (2 * N (example_platform 2))) \<le> INT_MAX
   \<and> (case and_then (part_A (example_platform 2) scenario) (part_B (example_platform 2)) of
         Inl e \<Rightarrow> False
       | Inr s \<Rightarrow> z s = Buf [Some (1 / 3), Some (1 / 3)]
           \<and> Y s = Buf [Some (1 / 3), Some 0, Some 0, Some (1 / 3), Some (- (1 / 3)), Some 0, Some 0, Some (- (1 / 3))]
           \<and> W s = Buf [Some 10, Some 10, Some (- 9), Some (- 9)]
           \<and> h_tilde s = Buf [Some (31 / 3), Some (31 / 3), Some (- (28 / 3)), Some (- (28 / 3))]
           \<and> Q_tilde s = Buf [Some (1 / 3), Some 0, Some (- (1 / 3)), Some 0,
                               Some 0, Some (1 / 3), Some 0, Some (- (1 / 3)),
                               Some (- (1 / 3)), Some 0, Some (1 / 3), Some 0,
                               Some 0, Some (- (1 / 3)), Some 0, Some (1 / 3)])
   \<and> (\<exists>s1 s2 s3 s4. part_A_solve (example_platform 2) scenario = Inr s1 \<and> part_A_assemble (example_platform 2) s1 = Inr s2
           \<and> part_B_solve (example_platform 2) s2 = Inr s3 \<and> part_B_assemble (example_platform 2) s3 = Inr s4
           \<and> z s1 = Buf (overlay (snd (snd (snd (dgesv (example_platform 2) LAPACK_COL_MAJOR (N (example_platform 2)) 1
                  (cells (Q scenario)) (N (example_platform 2)) (cells (h scenario)) (N (example_platform 2)))))) (cells (h scenario)))
           \<and> Y s3 = Buf (overlay (snd (snd (snd (dgesv (example_platform 2) LAPACK_COL_MAJOR (N (example_platform 2)) (2 * N (example_platform 2))
                  (cells (Q scenario)) (N (example_platform 2)) (transposed_V (example_platform 2) scenario) (N (example_platform 2))))))
                (transposed_V (example_platform 2) scenario))
           \<and> z s4 = z s1 \<and> Y s4 = Y s3 \<and> V s4 = V scenario \<and> W s4 = W scenario \<and> W s2 = W scenario
           \<and> h_tilde s4 = h_tilde s2
           \<and> length (cells (h_tilde s4)) = 2 * N (example_platform 2)
           \<and> length (cells (Q_tilde s4)) = (2 * N (example_platform 2)) * (2 * N (example_platform 2))
           \<and> (\<forall>i<2 * N (example_platform 2). cells (h_tilde s2) ! i =
                 cell_add (cells (W scenario) ! i)
                   (cell_sum (map (\<lambda>j. cell_mul (cells (V scenario) ! (i + j * (2 * N (example_platform 2)))) (cells (z s1) ! j))
                      [0..<N (example_platform 2)])))
           \<and> (\<forall>i<2 * N (example_platform 2). \<forall>j<2 * N (example_platform 2).
                 cells (Q_tilde s4) ! (i + j * (2 * N (example_platform 2))) =
                 cell_sum (map (\<lambda>l. cell_mul (cells (V scenario) ! (i + l * (2 * N (example_platform 2))))
                                              (cells (Y s3) ! (l + j * N (example_platform 2)))) [0..<N (example_platform 2)])))"
proof -
  have e: "(case and_then (part_A (example_platform 2) scenario) (part_B (example_platform 2)) of
         Inl e \<Rightarrow> False
       | Inr s \<Rightarrow> z s = Buf [Some (1 / 3), Some (1 / 3)]
           \<and> Y s = Buf [Some (1 / 3), Some 0, Some 0, Some (1 / 3), Some (- (1 / 3)), Some 0, Some 0, Some (- (1 / 3))]
           \<and> W s = Buf [Some 10, Some 10, Some (- 9), Some (- 9)]
           \<and> h_tilde s = Buf [Some (31 / 3), Some (31 / 3), Some (- (28 / 3)), Some (- (28 / 3))]
           \<and> Q_tilde s = Buf [Some (1 / 3), Some 0, Some (- (1 / 3)), Some 0,
                               Some 0, Some (1 / 3), Some 0, Some (- (1 / 3)),
                               Some (- (1 / 3)), Some 0, Some (1 / 3), Some 0,
                               Some 0, Some (- (1 / 3)), Some 0, Some (1 / 3)])"
    by code_simp
  show ?thesis
    using schur_complement_assembly[OF scenario_sized0 example_small] scenario_sized0 example_small e
    by blast
qed

text \<open>
  Claim C2, as stated, fails: \<^verbatim>\<open>main\<close> assembles \<open>h_tilde\<close> in Part A, before Part B transposes
  \<open>V\<close> and runs the second solve. On the end-to-end scenario of the specification, when
  Part A has returned, \<open>h_tilde\<close> already holds the reduced linear term, only the first
  status line has been printed, and \<open>Y\<close> is still as allocated: \<open>V\<close> has not been
  transposed into it and the second solve has not run.
\<close>

theorem assembly_order_counterexample:
  "(case part_A (example_platform 2) scenario of
      Inl e \<Rightarrow> False
    | Inr s \<Rightarrow> h_tilde s = Buf [Some (31 / 3), Some (31 / 3), Some (- (28 / 3)), Some (- (28 / 3))]
        \<and> out s = [Status ''info2'' 0 ''success!'']
        \<and> Y s = Buf [None, None, None, None, None, None, None, None]
        \<and> Y s = Y scenario \<and> Q s = Q scenario)"
  by code_simp

text \<open>
  Claim C2, amended. When the host allocations succeed, \<^verbatim>\<open>main\<close> runs, in this order: the
  allocations and \<^verbatim>\<open>init_matrices\<close>; the first solve, which produces \<open>z\<close> and leaves
  \<open>h_tilde\<close>, \<open>Y\<close> and \<open>Q_tilde\<close> as allocated; the assembly of \<open>h_tilde\<close> from \<open>W\<close>, \<open>V\<close>
  and that \<open>z\<close>, with \<open>Y\<close> and \<open>Q_tilde\<close> still as allocated; the transposition of \<open>V\<close>
  into \<open>Y\<close> and the second solve, which leave \<open>h_tilde\<close> and \<open>Q_tilde\<close> alone; the assembly
  of \<open>Q_tilde\<close> from \<open>V\<close> and the solved \<open>Y\<close>; and Part C. Each assembly comes after the
  solve whose result it reads, and \<open>Q_tilde\<close> after both solves.
\<close>

theorem pipeline_stage_order:
  fixes p :: "('g, 'a::linordered_field) platform"
  assumes "list_all (malloc_ok p) [0..<10]" "int ((2 * N p) * (2 * N p)) \<le> INT_MAX"
  shows "\<exists>s0 s1 s2 s3 s4.
           and_then (allocations p (initial p g)) (initialize p) = Inr s0
         \<and> part_A_solve p s0 = Inr s1 \<and> part_A_assemble p s1 = Inr s2
         \<and> part_B_solve p s2 = Inr s3 \<and> part_B_assemble p s3 = Inr s4
         \<and> main p g = and_then (part_C p s4) (\<lambda>s. Inr (0, s))
         \<and> Y s0 = Buf (replicate (2 * N p * N p) None)
         \<and> h_tilde s0 = Buf (replicate (2 * N p) None)
         \<and> Q_tilde s0 = Buf (replicate ((2 * N p) * (2 * N p)) None)
         \<and> z s1 = Buf (overlay (snd (snd (snd (dgesv p LAPACK_COL_MAJOR (N p) 1 (cells (Q s0)) (N p) (cells (h s0)) (N p))))) (cells (h s0)))
         \<and> h_tilde s1 = h_tilde s0 \<and> Y s1 = Y s0 \<and> Q_tilde s1 = Q_tilde s0
         \<and> h_tilde s2 = Buf (h_tilde_spec (N p) (cells (W s0)) (cells (V s0)) (cells (z s1)))
         \<and> Y s2 = Y s0 \<and> Q_tilde s2 = Q_tilde s0
         \<and> Y s3 = Buf (overlay (snd (snd (snd (dgesv p LAPACK_COL_MAJOR (N p) (2 * N p) (cells (Q s0)) (N p) (transposed_V p s0) (N p))))) (transposed_V p s0))
         \<and> h_tilde s3 = h_tilde s2 \<and> Q_tilde s3 = Q_tilde s0
         \<and> Q_tilde s4 = Buf (Q_tilde_spec (N p) (cells (V s0)) (cells (Y s3)))
         \<and> h_tilde s4 = h_tilde s2 \<and> Y s4 = Y s3"
proof -
  let ?s0 = "prepared p g"
  let ?s1 = "solved_z p ?s0"
  let ?s2 = "assembled_h p ?s1"
  let ?s3 = "solved_Y p ?s2"
  let ?s4 = "reduced p ?s0"
  have ok: "\<forall>k<10. malloc_ok p k" using assms(1) by (simp only: list_all_upt)
  note st = stages_ok[OF prepared_sized assms(2), of g]
  have t: "transposed_V p ?s2 = transposed_V p ?s0" by (rule transposed_V_cong) simp_all
  have y: "Y ?s3 = Buf (overlay (snd (snd (snd (dgesv p LAPACK_COL_MAJOR (N p) (2 * N p) (cells (Q ?s0)) (N p) (transposed_V p ?s0) (N p))))) (transposed_V p ?s0))"
    using solved_Y_result(1)[of p ?s2] by (simp add: t)
  have h2: "h_tilde ?s2 = Buf (h_tilde_spec (N p) (cells (W ?s0)) (cells (V ?s0)) (cells (z ?s1)))"
    by (simp add: assembled_h_def)
  have h4: "h_tilde ?s4 = h_tilde ?s2" unfolding h2 by (rule reduced_parts(1))
  have q4: "Q_tilde ?s4 = Buf (Q_tilde_spec (N p) (cells (V ?s0)) (cells (Y ?s3)))" by (rule reduced_parts(2))
  have f: "h_tilde ?s1 = h_tilde ?s0" "Y ?s1 = Y ?s0" "Q_tilde ?s1 = Q_tilde ?s0"
    "Y ?s2 = Y ?s0" "Q_tilde ?s2 = Q_tilde ?s0" "h_tilde ?s3 = h_tilde ?s2" "Q_tilde ?s3 = Q_tilde ?s0"
    "Y ?s4 = Y ?s3"
    by (simp_all add: reduced_parts)
  show ?thesis
    using prepared_run[OF ok, of g] st main_run[OF ok assms(2), of g] prepared_untouched[of p g]
      solved_z_z(1)[of p ?s0] y h2 h4 q4 f
    by blast
qed

theorem pipeline_stage_order_witness:
  "list_all (malloc_ok (example_platform 2)) [0..<10]
   \<and> int ((2 * N (example_platform 2)) * (2 * N (example_platform 2))) \<le> INT_MAX
   \<and> (\<exists>s0 s1 s2 s3 s4.
           and_then (allocations (example_platform 2) (initial (example_platform 2) 1)) (initialize (example_platform 2)) = Inr s0
         \<and> part_A_solve (example_platform 2) s0 = Inr s1 \<and> part_A_assemble (example_platform 2) s1 = Inr s2
         \<and> part_B_solve (example_platform 2) s2 = Inr s3 \<and> part_B_assemble (example_platform 2) s3 = Inr s4
         \<and> main (example_platform 2) 1 = and_then (part_C (example_platform 2) s4) (\<lambda>s. Inr (0, s))
         \<and> Y s0 = Buf (replicate (2 * N (example_platform 2) * N (example_platform 2)) None)
         \<and> h_tilde s0 = Buf (replicate (2 * N (example_platform 2)) None)
         \<and> Q_tilde s0 = Buf (replicate ((2 * N (example_platform 2)) * (2 * N (example_platform 2))) None)
         \<and> z s1 = Buf (overlay (snd (snd (snd (dgesv (example_platform 2) LAPACK_COL_MAJOR (N (example_platform 2)) 1
                (cells (Q s0)) (N (example_platform 2)) (cells (h s0)) (N (example_platform 2)))))) (cells (h s0)))
         \<and> h_tilde s1 = h_tilde s0 \<and> Y s1 = Y s0 \<and> Q_tilde s1 = Q_tilde s0
         \<and> h_tilde s2 = Buf (h_tilde_spec (N (example_platform 2)) (cells (W s0)) (cells (V s0)) (cells (z s1)))
         \<and> Y s2 = Y s0 \<and> Q_tilde s2 = Q_tilde s0
         \<and> Y s3 = Buf (overlay (snd (snd (snd (dgesv (example_platform 2) LAPACK_COL_MAJOR (N (example_platform 2)) (2 * N (example_platform 2))
                (cells (Q s0)) (N (example_platform 2)) (transposed_V (example_platform 2) s0) (N (example_platform 2))))))
              (transposed_V (example_platform 2) s0))
         \<and> h_tilde s3 = h_tilde s2 \<and> Q_tilde s3 = Q_tilde s0
         \<and> Q_tilde s4 = Buf (Q_tilde_spec (N (example_platform 2)) (cells (V s0)) (cells (Y s3)))
         \<and> h_tilde s4 = h_tilde s2 \<and> Y s4 = Y s3)"
proof -
  have a: "list_all (malloc_ok (example_platform 2)) [0..<10]"
    by (simp add: list_all_upt example_platform_def)
  show ?thesis
    using pipeline_stage_order[OF a example_small, of 1] a example_small by blast
qed

text \<open>
  Claim C8, as stated, fails: \<^verbatim>\<open>main\<close> prints the status of each solve and does nothing else
  with it. On the scenario with the singular matrix \<open>Q\<close> of rows \<open>(1, 2)\<close> and \<open>(2, 4)\<close>
  both solves report status 2; Part A and Part B still run to their end: the two lines
  say failure, and \<open>h_tilde\<close> and \<open>Q_tilde\<close> are assembled from the right-hand sides that the
  solver left unsolved (\<open>z = h\<close> and \<open>Y\<close> the transpose of \<open>V\<close>). Nothing is aborted and no solve
  is tried again.
\<close>

theorem singular_status_counterexample:
  "(case and_then (part_A (example_platform 2) (scenario\<lparr>Q := Buf [Some 1, Some 2, Some 2, Some 4]\<rparr>))
                  (part_B (example_platform 2)) of
      Inl e \<Rightarrow> False
    | Inr s \<Rightarrow> take 3 (out s) = [Status ''info2'' 2 ''failure'', Status ''info'' 2 ''failure'', Text ''Qtilde'']
        \<and> info s = Some 2
        \<and> z s = Buf [Some 1, Some 1]
        \<and> h_tilde s = Buf [Some 11, Some 11, Some (- 10), Some (- 10)]
        \<and> Q_tilde s = Buf [Some 1, Some 0, Some (- 1), Some 0, Some 0, Some 1, Some 0, Some (- 1),
                            Some (- 1), Some 0, Some 1, Some 0, Some 0, Some (- 1), Some 0, Some 1])"
  by code_simp

text \<open>
  Claim C8, amended. Whatever status the solver returns, on every well sized state: after
  each of the two solves \<^verbatim>\<open>main\<close> stores the status in \<open>info\<close> and prints one line with it
  (success when it is zero, failure otherwise); the assembly that follows runs all the
  same; and when the allocations succeed \<^verbatim>\<open>main\<close> returns 0. The status is neither
  returned nor acted upon.
\<close>

theorem solver_status_is_only_reported:
  fixes p :: "('g, 'a::linordered_field) platform"
  assumes "sized p s" "int ((2 * N p) * (2 * N p)) \<le> INT_MAX"
  shows "\<exists>s1 s2 s3 s4.
           part_A_solve p s = Inr s1
         \<and> info s1 = Some (fst (dgesv p LAPACK_COL_MAJOR (N p) 1 (cells (Q s)) (N p) (cells (h s)) (N p)))
         \<and> out s1 = out s @ [status_line ''info2'' (fst (dgesv p LAPACK_COL_MAJOR (N p) 1 (cells (Q s)) (N p) (cells (h s)) (N p)))]
         \<and> part_A_assemble p s1 = Inr s2 \<and> info s2 = info s1 \<and> out s2 = out s1
         \<and> part_B_solve p s2 = Inr s3
         \<and> info s3 = Some (fst (dgesv p LAPACK_COL_MAJOR (N p) (2 * N p) (cells (Q s)) (N p) (transposed_V p s) (N p)))
         \<and> out s3 = out s2 @ [status_line ''info'' (fst (dgesv p LAPACK_COL_MAJOR (N p) (2 * N p) (cells (Q s)) (N p) (transposed_V p s) (N p)))]
         \<and> part_B_assemble p s3 = Inr s4 \<and> info s4 = info s3
         \<and> out s4 = out s3 @ printed_matrix ''Qtilde'' (2 * N p) (2 * N p) (2 * N p) (cells (Q_tilde s4))
         \<and> (list_all (malloc_ok p) [0..<10] \<and> list_all (\<lambda>d. cudaMalloc_status p d = cudaSuccess) [0..<2]
              \<longrightarrow> (\<exists>s'. main p g = Inr (0, s')))"
proof -
  let ?s1 = "solved_z p s"
  let ?s2 = "assembled_h p ?s1"
  let ?s3 = "solved_Y p ?s2"
  let ?s4 = "reduced p s"
  note st = stages_ok[OF assms]
  have t: "transposed_V p ?s2 = transposed_V p s" by (rule transposed_V_cong) simp_all
  have i3: "info ?s3 = Some (fst (dgesv p LAPACK_COL_MAJOR (N p) (2 * N p) (cells (Q s)) (N p) (transposed_V p s) (N p)))"
    using solved_Y_result(3)[of p ?s2] by (simp add: t)
  have o3: "out ?s3 = out ?s2 @ [status_line ''info'' (fst (dgesv p LAPACK_COL_MAJOR (N p) (2 * N p) (cells (Q s)) (N p) (transposed_V p s) (N p)))]"
    using solved_Y_result(4)[of p ?s2] by (simp add: t)
  have f: "info ?s2 = info ?s1" "out ?s2 = out ?s1" by simp_all
  have m: "list_all (malloc_ok p) [0..<10] \<and> list_all (\<lambda>d. cudaMalloc_status p d = cudaSuccess) [0..<2]
              \<longrightarrow> (\<exists>s'. main p g = Inr (0, s'))"
    using main_success[OF _ assms(2), of g] by (auto simp: list_all_upt)
  show ?thesis
    using st solved_z_z(3,4)[of p s] f i3 o3 reduced_info[of p s] m by blast
qed

theorem solver_status_is_only_reported_witness:
  "sized (example_platform 2) (scenario\<lparr>Q := Buf [Some 1, Some 2, Some 2, Some 4]\<rparr>)
   \<and> int ((2 * N (example_platform 2)) * (2 * N (example_platform 2))) \<le> INT_MAX
   \<and> fst (dgesv (example_platform 2) LAPACK_COL_MAJOR (N (example_platform 2)) 1
            (cells (Q (scenario\<lparr>Q := Buf [Some 1, Some 2, Some 2, Some 4]\<rparr>))) (N (example_platform 2))
            (cells (h (scenario\<lparr>Q := Buf [Some 1, Some 2, Some 2, Some 4]\<rparr>))) (N (example_platform 2))) = 2
   \<and> list_all (malloc_ok (example_platform 2)) [0..<10]
   \<and> list_all (\<lambda>d. cudaMalloc_status (example_platform 2) d = cudaSuccess) [0..<2]
   \<and> (\<exists>s'. main (example_platform 2) 1 = Inr (0, s'))
   \<and> (\<exists>s1 s2 s3 s4.
           part_A_solve (example_platform 2) (scenario\<lparr>Q := Buf [Some 1, Some 2, Some 2, Some 4]\<rparr>) = Inr s1
         \<and> info s1 = Some 2 \<and> out s1 = out (scenario\<lparr>Q := Buf [Some 1, Some 2, Some 2, Some 4]\<rparr>) @ [status_line ''info2'' 2]
         \<and> part_A_assemble (example_platform 2) s1 = Inr s2 \<and> info s2 = info s1 \<and> out s2 = out s1
         \<and> part_B_solve (example_platform 2) s2 = Inr s3
         \<and> part_B_assemble (example_platform 2) s3 = Inr s4 \<and> info s4 = info s3)"
proof -
  let ?p = "example_platform 2"
  let ?s = "scenario\<lparr>Q := Buf [Some 1, Some 2, Some 2, Some 4]\<rparr>"
  have e: "fst (dgesv ?p LAPACK_COL_MAJOR (N ?p) 1 (cells (Q ?s)) (N ?p) (cells (h ?s)) (N ?p)) = 2"
    by code_simp
  have a: "list_all (malloc_ok ?p) [0..<10]" "list_all (\<lambda>d. cudaMalloc_status ?p d = cudaSuccess) [0..<2]"
    by (simp_all add: list_all_upt example_platform_def cudaSuccess_def)
  show ?thesis
    using solver_status_is_only_reported[OF scenario_sized example_small, of "Some 1" "Some 2" "Some 2" "Some 4" 1]
      scenario_sized[of "Some 1" "Some 2" "Some 2" "Some 4"] example_small e a
    by (metis (no_types, lifting))
qed








end
